theory Spec2Isabelle
  imports Complex_Main
begin

section \<open>JavaScript values and the operators the handlers apply to them\<close>

text \<open>
  The route handlers are JavaScript: what \<^verbatim>\<open>+\<close>, \<^verbatim>\<open>>\<close> and \<^verbatim>\<open>>=\<close> compute depends on
  whether an operand is a string or a number. Values read from a query result are therefore
  kept as JavaScript values. Integer-valued numbers are modelled by \<open>int\<close> (exact below
  \<open>2^53\<close>); \<open>JNaN\<close> is the number NaN.
\<close>

datatype jsval =
    JUndefined
  | JNull
  | JBool bool
  | JNum int
  | JNaN
  | JStr string
  | JObj "(string \<times> jsval) list"

definition digit_char :: "nat \<Rightarrow> char" where
  "digit_char d = ''0123456789'' ! d"

fun dec_digits :: "nat \<Rightarrow> string" where
  "dec_digits n =
     (if n < 10 then [digit_char n] else dec_digits (n div 10) @ [digit_char (n mod 10)])"

declare dec_digits.simps [simp del]

definition number_to_string :: "int \<Rightarrow> string" where
  "number_to_string i = (if i < 0 then CHR ''-'' # dec_digits (nat (- i)) else dec_digits (nat i))"

text \<open>ToString of the language standard, on the values the handlers meet.\<close>

fun to_string :: "jsval \<Rightarrow> string" where
  "to_string JUndefined = ''undefined''"
| "to_string JNull = ''null''"
| "to_string (JBool b) = (if b then ''true'' else ''false'')"
| "to_string (JNum i) = number_to_string i"
| "to_string JNaN = ''NaN''"
| "to_string (JStr s) = s"
| "to_string (JObj kvs) = ''[object Object]''"

definition is_digit :: "char \<Rightarrow> bool" where
  "is_digit c = (48 \<le> (of_char c :: nat) \<and> (of_char c :: nat) \<le> 57)"

definition digit_val :: "char \<Rightarrow> nat" where
  "digit_val c = of_char c - 48"

definition digits_value :: "string \<Rightarrow> nat" where
  "digits_value s = foldl (\<lambda>a c. 10 * a + digit_val c) 0 s"

text \<open>
  ToNumber on a string, exact on decimal integer literals: the text of an integer column and
  every concatenation of such texts is one. The empty string is 0. On any other string the
  model answers NaN (\<open>None\<close>); JavaScript would still read, among others, a plus sign,
  a fraction, an exponent, a hexadecimal literal or surrounding white space, none of which
  a handler modelled here can meet.
\<close>

definition string_to_number :: "string \<Rightarrow> int option" where
  "string_to_number s =
     (if s = [] then Some 0
      else if list_all is_digit s then Some (int (digits_value s))
      else (case s of
              c # r \<Rightarrow> if c = CHR ''-'' \<and> r \<noteq> [] \<and> list_all is_digit r
                       then Some (- int (digits_value r)) else None
            | [] \<Rightarrow> None))"

fun to_number :: "jsval \<Rightarrow> int option" where
  "to_number JUndefined = None"
| "to_number JNull = Some 0"
| "to_number (JBool b) = Some (if b then 1 else 0)"
| "to_number (JNum i) = Some i"
| "to_number JNaN = None"
| "to_number (JStr s) = string_to_number s"
| "to_number (JObj kvs) = None"

text \<open>Strings compare by code unit, left to right; a proper prefix is smaller.\<close>

fun str_lt :: "string \<Rightarrow> string \<Rightarrow> bool" where
  "str_lt [] [] = False"
| "str_lt [] (y # ys) = True"
| "str_lt (x # xs) [] = False"
| "str_lt (x # xs) (y # ys) =
     (if (of_char x :: nat) < of_char y then True
      else if (of_char y :: nat) < of_char x then False
      else str_lt xs ys)"

fun is_stringy :: "jsval \<Rightarrow> bool" where
  "is_stringy (JStr s) = True"
| "is_stringy (JObj kvs) = True"
| "is_stringy v = False"

text \<open>
  \<^verbatim>\<open>a + b\<close>: when either operand is a string (or an object, whose primitive is a
  string) the result is the concatenation of both texts; otherwise the numeric sum.
\<close>

definition js_add :: "jsval \<Rightarrow> jsval \<Rightarrow> jsval" where
  "js_add a b =
     (if is_stringy a \<or> is_stringy b then JStr (to_string a @ to_string b)
      else (case (to_number a, to_number b) of
              (Some x, Some y) \<Rightarrow> JNum (x + y)
            | _ \<Rightarrow> JNaN))"

text \<open>
  \<^verbatim>\<open>a < b\<close>: two strings compare as strings; in every other case both sides are
  converted to numbers, and a comparison with NaN is false.
\<close>

definition js_lt :: "jsval \<Rightarrow> jsval \<Rightarrow> bool" where
  "js_lt a b =
     (if is_stringy a \<and> is_stringy b then str_lt (to_string a) (to_string b)
      else (case (to_number a, to_number b) of
              (Some x, Some y) \<Rightarrow> x < y
            | _ \<Rightarrow> False))"

definition js_gt :: "jsval \<Rightarrow> jsval \<Rightarrow> bool" where
  "js_gt a b = js_lt b a"

text \<open>\<^verbatim>\<open>a >= b\<close> is the negation of \<^verbatim>\<open>a < b\<close>, except that NaN makes it false as well.\<close>

definition js_ge :: "jsval \<Rightarrow> jsval \<Rightarrow> bool" where
  "js_ge a b =
     (if is_stringy a \<and> is_stringy b then \<not> str_lt (to_string a) (to_string b)
      else (case (to_number a, to_number b) of
              (Some x, Some y) \<Rightarrow> \<not> x < y
            | _ \<Rightarrow> False))"

text \<open>
  \<^verbatim>\<open>parseInt(v)\<close>: the longest prefix of decimal digits of the text of \<open>v\<close>, NaN when
  there is none. (A sign, leading white space and the \<^verbatim>\<open>0x\<close> prefix are left out: the
  handlers apply it to counts.)
\<close>

definition parseInt :: "jsval \<Rightarrow> int option" where
  "parseInt v =
     (let ds = takeWhile is_digit (to_string v)
      in if ds = [] then None else Some (int (digits_value ds)))"

text \<open>Property access on an object; an absent property is \<^verbatim>\<open>undefined\<close>.\<close>

definition js_get :: "(string \<times> jsval) list \<Rightarrow> string \<Rightarrow> jsval" where
  "js_get obj k = (case map_of obj k of None \<Rightarrow> JUndefined | Some v \<Rightarrow> v)"

subsection \<open>What the database driver hands to a handler\<close>

text \<open>
  Every handler reads the store through \<^verbatim>\<open>query\<close> of \<^verbatim>\<open>config/database\<close>, which is
  not among the sources. It decides how a 64-bit integer column (\<^verbatim>\<open>BIGINT\<close>,
  \<^verbatim>\<open>COUNT(*)\<close>) and an arbitrary-precision value (\<^verbatim>\<open>SUM\<close> over \<^verbatim>\<open>BIGINT\<close>) reach
  JavaScript: as their decimal text or as a number. The decoding is a parameter of the
  handlers. \<open>pg_default\<close> is the decoding of the PostgreSQL client library as shipped, and
  the one the handlers themselves expect where they wrap these columns in
  \<^verbatim>\<open>parseInt\<close> (\<^verbatim>\<open>stats.total_size\<close>, \<^verbatim>\<open>stats.storage_used\<close>, \<^verbatim>\<open>row.errors\<close>).
  A 32-bit \<^verbatim>\<open>INTEGER\<close> column always arrives as a number.
\<close>

datatype decoding = AsString | AsNumber

record driver =
  int8 :: decoding
  numeric :: decoding

definition decode :: "decoding \<Rightarrow> nat \<Rightarrow> jsval" where
  "decode d n = (case d of AsString \<Rightarrow> JStr (dec_digits n) | AsNumber \<Rightarrow> JNum (int n))"

definition pg_default :: driver where
  "pg_default = \<lparr>int8 = AsString, numeric = AsString\<rparr>"

definition numbers_only :: driver where
  "numbers_only = \<lparr>int8 = AsNumber, numeric = AsNumber\<rparr>"

section \<open>The store\<close>

text \<open>
  The tables of \<^verbatim>\<open>database/schema.sql\<close> that the modelled routers read and write, one
  record per row, with the columns the handlers use. A nullable column that a handler can
  leave or set to \<^verbatim>\<open>NULL\<close> is an option. An identifier is a UUID, held as the text the
  database prints for it (the short identifiers of some examples stand for such texts); a
  timestamp is a count of seconds.
\<close>

type_synonym uuid = string
type_synonym timestamp = nat

record user_row =
  u_id :: uuid
  email :: string
  first_name :: "string option"
  last_name :: "string option"
  storage_quota :: nat
  domain_quota :: nat

record domain_row =
  d_id :: uuid
  d_user_id :: uuid
  domain_name :: string
  status :: string
  ssl_status :: string
  dns_records :: "jsval option"
  verification_token :: string
  expires_at :: "timestamp option"
  auto_renew :: "bool option"
  d_created_at :: timestamp
  d_updated_at :: timestamp
  last_verified :: "timestamp option"

record file_row =
  f_id :: uuid
  f_user_id :: uuid
  original_name :: string
  stored_name :: string
  file_path :: string
  file_size :: nat
  mime_type :: string
  is_public :: bool
  download_count :: int
  f_created_at :: timestamp
  f_updated_at :: timestamp

text \<open>The state of the service: the three tables and the paths present on disk.\<close>

record store =
  users :: "user_row list"
  domains :: "domain_row list"
  files :: "file_row list"
  disk :: "string set"

text \<open>
  What a handler answers when it does not succeed: \<open>Failure c m\<close> is the status code
  \<open>c\<close> with the body \<^verbatim>\<open>{error: m}\<close>; \<open>Invalid\<close> is status 400 with the validator's
  \<^verbatim>\<open>errors\<close> array; \<open>VerifyFailure v\<close> is status 400 with the body
  \<^verbatim>\<open>{error: 'Domain verification failed', message: ..., dnsRecords: v}\<close>.
  The specification's names for them: \<open>NotFound\<close> is a 404, \<open>AccessDenied\<close> the 403,
  \<open>QuotaExceeded\<close> the 400 \<^verbatim>\<open>Domain quota exceeded\<close>, \<open>StorageQuotaExceeded\<close> the 400
  \<^verbatim>\<open>Storage quota exceeded\<close>, \<open>DuplicateDomain\<close> the 400 \<^verbatim>\<open>Domain already exists\<close>,
  \<open>InternalError\<close> a 500.
\<close>

datatype failure =
    Failure nat string
  | Invalid
  | VerifyFailure jsval

section \<open>The domain router\<close>

text \<open>
  What the environment supplies to a request: the validator's \<^verbatim>\<open>isFQDN\<close>, the driver's
  decoding, the variable \<^verbatim>\<open>RENDER_EXTERNAL_HOSTNAME\<close>, the database's reading of a text
  as a value of a \<^verbatim>\<open>UUID\<close> column (\<open>None\<close> for a text it refuses: the statement that
  binds the text then fails), and the paths the file system refuses to unlink although they
  are there (permissions, a directory). The file router and the monitor router bind the
  path's \<^verbatim>\<open>:id\<close> as it came; the handlers of the domain router below are stated on an
  id that has been read.
\<close>

record env =
  isFQDN :: "string \<Rightarrow> bool"
  drv :: driver
  RENDER_EXTERNAL_HOSTNAME :: "string option"
  uuid_in :: "string \<Rightarrow> uuid option"
  unlink_refused :: "string \<Rightarrow> bool"

text \<open>
  The body of \<^verbatim>\<open>POST /domains\<close>. A body whose \<^verbatim>\<open>autoRenew\<close> is present and not a
  boolean is refused by the validator; the type leaves it out.
\<close>

record add_domain_body =
  domainName :: string
  autoRenew :: "bool option"

text \<open>
  What is drawn afresh for a request: the row's \<^verbatim>\<open>gen_random_uuid()\<close>, the handler's
  \<^verbatim>\<open>uuidv4()\<close>, and \<^verbatim>\<open>CURRENT_TIMESTAMP\<close>.
\<close>

record fresh =
  new_id :: uuid
  new_token :: string
  now :: timestamp

record add_domain_ok =
  r_id :: uuid
  r_domainName :: string
  r_status :: string
  r_verificationToken :: string
  r_dnsRecords :: jsval
  r_autoRenew :: bool

text \<open>
  \<^verbatim>\<open>INSERT INTO domains\<close> under the constraints of the schema: the primary key, the
  \<^verbatim>\<open>UNIQUE\<close> verification token, the reference to \<^verbatim>\<open>users\<close> and the two
  \<^verbatim>\<open>VARCHAR(255)\<close> widths. The schema puts no constraint on \<^verbatim>\<open>domain_name\<close> beyond
  its width. \<open>None\<close> is the statement failing.
\<close>

definition insert_domain :: "store \<Rightarrow> domain_row \<Rightarrow> store option" where
  "insert_domain s d =
     (if d_id d \<in> set (map d_id (domains s))
         \<or> verification_token d \<in> set (map verification_token (domains s))
         \<or> d_user_id d \<notin> set (map u_id (users s))
         \<or> 255 < length (domain_name d)
         \<or> 255 < length (verification_token d)
      then None
      else Some (s\<lparr>domains := domains s @ [d]\<rparr>))"

definition external_hostname :: "env \<Rightarrow> string" where
  "external_hostname e =
     (case RENDER_EXTERNAL_HOSTNAME e of
        None \<Rightarrow> ''your-service.onrender.com''
      | Some h \<Rightarrow> if h = [] then ''your-service.onrender.com'' else h)"

definition dnsRecords_of :: "env \<Rightarrow> string \<Rightarrow> uuid \<Rightarrow> jsval" where
  "dnsRecords_of e dn i =
     JObj [(''cname'', JObj [(''name'', JStr dn),
                             (''value'', JStr (external_hostname e)),
                             (''ttl'', JNum 300)]),
           (''verification'', JObj [(''name'', JStr (''_acme-challenge.'' @ dn)),
                                    (''value'', JStr (i @ ''.verify.renderdns.com'')),
                                    (''ttl'', JNum 300)])]"

text \<open>The row \<^verbatim>\<open>INSERT INTO domains (user_id, domain_name, verification_token, auto_renew)\<close>
  creates: every other column takes its default.\<close>

definition new_domain_row :: "uuid \<Rightarrow> string \<Rightarrow> bool \<Rightarrow> fresh \<Rightarrow> domain_row" where
  "new_domain_row uid dn ar fr =
     \<lparr>d_id = new_id fr, d_user_id = uid, domain_name = dn,
      status = ''pending'', ssl_status = ''pending'', dns_records = None,
      verification_token = new_token fr, expires_at = None, auto_renew = Some ar,
      d_created_at = now fr, d_updated_at = now fr, last_verified = None\<rparr>"

text \<open>
  \<^verbatim>\<open>POST /domains\<close>, in the two halves the handler has. First come its reads: the
  validation result, the quota query and the duplicate query, each of which may end the
  request. The quota query reads \<^verbatim>\<open>rows[0]\<close> of the caller's user row; with no such
  row the property access throws and the handler answers 500.
\<close>

definition register_checks :: "env \<Rightarrow> store \<Rightarrow> uuid \<Rightarrow> add_domain_body \<Rightarrow> failure option" where
  "register_checks e s uid b =
     (if \<not> isFQDN e (domainName b) then Some Invalid
      else
        (case find (\<lambda>u. u_id u = uid) (users s) of
           None \<Rightarrow> Some (Failure 500 ''Failed to add domain'')
         | Some user \<Rightarrow>
             let current_count =
                   decode (int8 (drv e)) (length (filter (\<lambda>d. d_user_id d = uid) (domains s)))
             in
             if js_ge current_count (JNum (int (domain_quota user)))
             then Some (Failure 400 ''Domain quota exceeded'')
             else if filter (\<lambda>d. domain_name d = domainName b) (domains s) \<noteq> []
             then Some (Failure 400 ''Domain already exists'')
             else None))"

text \<open>
  Then its writes: the \<^verbatim>\<open>INSERT\<close>, and the \<^verbatim>\<open>UPDATE\<close> that stores the DNS
  records of the new row. A failing statement throws, and the handler answers 500.
\<close>

definition set_dns_records :: "uuid \<Rightarrow> jsval \<Rightarrow> timestamp \<Rightarrow> domain_row \<Rightarrow> domain_row" where
  "set_dns_records i dns t d =
     (if d_id d = i then d\<lparr>dns_records := Some dns, d_updated_at := t\<rparr> else d)"

definition register_writes ::
  "env \<Rightarrow> store \<Rightarrow> uuid \<Rightarrow> add_domain_body \<Rightarrow> fresh \<Rightarrow> store \<times> (failure + add_domain_ok)" where
  "register_writes e s uid b fr =
     (let ar = (case autoRenew b of None \<Rightarrow> False | Some v \<Rightarrow> v);
          row = new_domain_row uid (domainName b) ar fr
      in
      (case insert_domain s row of
         None \<Rightarrow> (s, Inl (Failure 500 ''Failed to add domain''))
       | Some s1 \<Rightarrow>
           let dns = dnsRecords_of e (domainName b) (d_id row);
               s2 = s1\<lparr>domains := map (set_dns_records (d_id row) dns (now fr)) (domains s1)\<rparr>
           in (s2, Inr \<lparr>r_id = d_id row, r_domainName = domain_name row,
                        r_status = status row,
                        r_verificationToken = verification_token row,
                        r_dnsRecords = dns, r_autoRenew = ar\<rparr>)))"

text \<open>A request that runs alone does its reads and its writes on the same store.\<close>

definition register ::
  "env \<Rightarrow> store \<Rightarrow> uuid \<Rightarrow> add_domain_body \<Rightarrow> fresh \<Rightarrow> store \<times> (failure + add_domain_ok)" where
  "register e s uid b fr =
     (case register_checks e s uid b of
        Some f \<Rightarrow> (s, Inl f)
      | None \<Rightarrow> register_writes e s uid b fr)"

text \<open>
  The columns \<^verbatim>\<open>POST /domains/:id/verify\<close> selects:
  \<^verbatim>\<open>SELECT id, domain_name, verification_token, status FROM domains\<close>.
\<close>

definition verify_columns :: "domain_row \<Rightarrow> (string \<times> jsval) list" where
  "verify_columns d =
     [(''id'', JStr (d_id d)),
      (''domain_name'', JStr (domain_name d)),
      (''verification_token'', JStr (verification_token d)),
      (''status'', JStr (status d))]"

record verify_ok =
  v_status :: string
  v_sslStatus :: string

text \<open>
  \<^verbatim>\<open>POST /domains/:id/verify\<close>. \<open>rnd\<close> is the value of \<^verbatim>\<open>Math.random()\<close>; no
  double lies between the double nearest to 0.3 and the number 3/10, so the test
  \<^verbatim>\<open>Math.random() > 0.3\<close> is \<open>3/10 < rnd\<close>.
\<close>

definition set_active :: "jsval \<Rightarrow> timestamp \<Rightarrow> domain_row \<Rightarrow> domain_row" where
  "set_active i t r =
     (if JStr (d_id r) = i
      then r\<lparr>status := ''active'', ssl_status := ''active'',
             last_verified := Some t, d_updated_at := t\<rparr>
      else r)"

definition verify ::
  "store \<Rightarrow> uuid \<Rightarrow> uuid \<Rightarrow> real \<Rightarrow> timestamp \<Rightarrow> store \<times> (failure + verify_ok)" where
  "verify s uid did rnd t =
     (case filter (\<lambda>d. d_id d = did \<and> d_user_id d = uid) (domains s) of
        [] \<Rightarrow> (s, Inl (Failure 404 ''Domain not found''))
      | d # ds \<Rightarrow>
          let domain = verify_columns d;
              isVerified = (3 / 10 < rnd)
          in
          if isVerified
          then (s\<lparr>domains := map (set_active (js_get domain ''id'') t) (domains s)\<rparr>,
                Inr \<lparr>v_status = ''active'', v_sslStatus = ''active''\<rparr>)
          else (s, Inl (VerifyFailure (js_get domain ''dns_records''))))"

text \<open>
  \<^verbatim>\<open>PUT /domains/:id\<close>: one fixed \<^verbatim>\<open>UPDATE\<close> that always binds \<^verbatim>\<open>autoRenew\<close>; an
  omitted property is \<^verbatim>\<open>undefined\<close>, which the driver sends as \<^verbatim>\<open>NULL\<close>. The answer
  carries the updated row (\<^verbatim>\<open>RETURNING *\<close>).
\<close>

definition update_domain ::
  "store \<Rightarrow> uuid \<Rightarrow> uuid \<Rightarrow> bool option \<Rightarrow> timestamp \<Rightarrow> store \<times> (failure + domain_row)" where
  "update_domain s uid did ar t =
     (let hit = (\<lambda>d. d_id d = did \<and> d_user_id d = uid);
          upd = (\<lambda>d. d\<lparr>auto_renew := ar, d_updated_at := t\<rparr>);
          rows = map upd (filter hit (domains s))
      in case rows of
           [] \<Rightarrow> (s, Inl (Failure 404 ''Domain not found''))
         | r # rs \<Rightarrow>
             (s\<lparr>domains := map (\<lambda>d. if hit d then upd d else d) (domains s)\<rparr>, Inr r))"

text \<open>\<^verbatim>\<open>DELETE /domains/:id\<close>.\<close>

definition delete_domain :: "store \<Rightarrow> uuid \<Rightarrow> uuid \<Rightarrow> store \<times> (failure + unit)" where
  "delete_domain s uid did =
     (let hit = (\<lambda>d. d_id d = did \<and> d_user_id d = uid)
      in if filter hit (domains s) = []
         then (s, Inl (Failure 404 ''Domain not found''))
         else (s\<lparr>domains := filter (\<lambda>d. \<not> hit d) (domains s)\<rparr>, Inr ()))"

text \<open>
  A change of the users table by another router. Deleting a user deletes the user's domains
  (\<^verbatim>\<open>ON DELETE CASCADE\<close>).
\<close>

definition users_changed :: "store \<Rightarrow> user_row list \<Rightarrow> store" where
  "users_changed s us =
     s\<lparr>users := us, domains := filter (\<lambda>d. d_user_id d \<in> set (map u_id us)) (domains s)\<rparr>"

text \<open>
  The states of the domains table that requests to the router reach, one request after the
  other, each handler running to its end before the next starts. The router never writes
  the users table; any change to it (a plan change, a new or a deleted account) is a step
  of its own.
\<close>

inductive reachable :: "env \<Rightarrow> store \<Rightarrow> bool" for e :: env where
  start: "domains s = [] \<Longrightarrow> reachable e s"
| by_register: "reachable e s \<Longrightarrow> reachable e (fst (register e s uid b fr))"
| by_verify: "reachable e s \<Longrightarrow> reachable e (fst (verify s uid did rnd t))"
| by_update: "reachable e s \<Longrightarrow> reachable e (fst (update_domain s uid did ar t))"
| by_delete: "reachable e s \<Longrightarrow> reachable e (fst (delete_domain s uid did))"
| by_users: "reachable e s \<Longrightarrow> reachable e (users_changed s us)"

text \<open>
  The invariant the router keeps on every row: the two status columns move together, and
  only between the two values the router writes.
\<close>

definition row_ok :: "domain_row \<Rightarrow> bool" where
  "row_ok d = ((status d = ''pending'' \<or> status d = ''active'') \<and> ssl_status d = status d)"

section \<open>The file router\<close>

text \<open>
  The file filter of the upload middleware. A part it refuses never reaches the handler, and
  neither does one beyond the size limit; the handler below starts from \<^verbatim>\<open>req.file\<close>,
  the part the middleware has already written to \<^verbatim>\<open>req.file.path\<close>.
\<close>

definition allowedTypes :: "string list" where
  "allowedTypes =
     [''image/jpeg'', ''image/png'', ''image/gif'', ''image/webp'',
      ''text/plain'', ''text/html'', ''text/css'', ''text/javascript'',
      ''application/pdf'', ''application/json'', ''application/xml'',
      ''application/zip'', ''application/x-zip-compressed'']"

definition startsWith :: "string \<Rightarrow> string \<Rightarrow> bool" where
  "startsWith s p = (take (length p) s = p)"

definition fileFilter :: "string \<Rightarrow> bool" where
  "fileFilter mimetype = (mimetype \<in> set allowedTypes \<or> startsWith mimetype ''text/'')"

record req_file =
  rf_originalname :: string
  rf_filename :: string
  rf_path :: string
  rf_size :: nat
  rf_mimetype :: string

definition multer_stored :: "store \<Rightarrow> req_file \<Rightarrow> store" where
  "multer_stored s f = s\<lparr>disk := insert (rf_path f) (disk s)\<rparr>"

text \<open>
  \<^verbatim>\<open>fs.unlink\<close>: removing a path that is not there fails, and so does removing one the
  file system refuses to remove; the bytes of the latter stay.
\<close>

definition fs_unlink :: "env \<Rightarrow> string set \<Rightarrow> string \<Rightarrow> string set option" where
  "fs_unlink e dk p = (if p \<in> dk \<and> \<not> unlink_refused e p then Some (dk - {p}) else None)"

text \<open>The clean-up of the handler's \<^verbatim>\<open>catch\<close>: unlink, and only log a failure.\<close>

definition cleanup :: "env \<Rightarrow> store \<Rightarrow> req_file \<Rightarrow> store" where
  "cleanup e s f =
     (case fs_unlink e (disk s) (rf_path f) of None \<Rightarrow> s | Some dk \<Rightarrow> s\<lparr>disk := dk\<rparr>)"

text \<open>\<^verbatim>\<open>INSERT INTO files\<close> under the primary key, the reference to \<^verbatim>\<open>users\<close> and the
  widths of the text columns.\<close>

definition insert_file :: "store \<Rightarrow> file_row \<Rightarrow> store option" where
  "insert_file s r =
     (if f_id r \<in> set (map f_id (files s))
         \<or> f_user_id r \<notin> set (map u_id (users s))
         \<or> 255 < length (original_name r)
         \<or> 255 < length (stored_name r)
         \<or> 500 < length (file_path r)
         \<or> 100 < length (mime_type r)
      then None
      else Some (s\<lparr>files := files s @ [r]\<rparr>))"

definition new_file_row :: "uuid \<Rightarrow> req_file \<Rightarrow> bool \<Rightarrow> uuid \<Rightarrow> timestamp \<Rightarrow> file_row" where
  "new_file_row uid f pub i t =
     \<lparr>f_id = i, f_user_id = uid, original_name = rf_originalname f,
      stored_name = rf_filename f, file_path = rf_path f, file_size = rf_size f,
      mime_type = rf_mimetype f, is_public = pub, download_count = 0,
      f_created_at = t, f_updated_at = t\<rparr>"

text \<open>\<^verbatim>\<open>SELECT COALESCE(SUM(file_size), 0) FROM files WHERE user_id = $1\<close>.\<close>

definition storage_used :: "store \<Rightarrow> uuid \<Rightarrow> nat" where
  "storage_used s uid = sum_list (map file_size (filter (\<lambda>r. f_user_id r = uid) (files s)))"

text \<open>
  The handler of \<^verbatim>\<open>POST /files/upload\<close>, on the store in which the middleware has
  written the bytes. \<^verbatim>\<open>req.file.size\<close> is a number. The sum and the quota come from
  the driver: the sum of a \<^verbatim>\<open>BIGINT\<close> column is arbitrary-precision, the quota is a
  \<^verbatim>\<open>BIGINT\<close>. A statement or an unlink that throws ends in the \<^verbatim>\<open>catch\<close>: clean-up
  and 500. A body whose \<^verbatim>\<open>isPublic\<close> is present and not a boolean is answered with the
  validator's errors before any of this, the written part staying where it is; the type
  leaves that request out.
\<close>

definition upload ::
  "env \<Rightarrow> store \<Rightarrow> uuid \<Rightarrow> req_file option \<Rightarrow> bool option \<Rightarrow> uuid \<Rightarrow> timestamp
     \<Rightarrow> store \<times> (failure + file_row)" where
  "upload e s uid file isPublic i t =
     (case file of
        None \<Rightarrow> (s, Inl (Failure 400 ''No file uploaded''))
      | Some f \<Rightarrow>
          (case find (\<lambda>u. u_id u = uid) (users s) of
             None \<Rightarrow> (cleanup e s f, Inl (Failure 500 ''Failed to upload file''))
           | Some user \<Rightarrow>
               let current_storage = decode (numeric (drv e)) (storage_used s uid);
                   quota = decode (int8 (drv e)) (storage_quota user)
               in
               if js_gt (js_add current_storage (JNum (int (rf_size f)))) quota
               then (case fs_unlink e (disk s) (rf_path f) of
                       Some dk \<Rightarrow> (s\<lparr>disk := dk\<rparr>, Inl (Failure 400 ''Storage quota exceeded''))
                     | None \<Rightarrow> (cleanup e s f, Inl (Failure 500 ''Failed to upload file'')))
               else
                 let row = new_file_row uid f (case isPublic of None \<Rightarrow> False | Some v \<Rightarrow> v) i t
                 in (case insert_file s row of
                       None \<Rightarrow> (cleanup e s f, Inl (Failure 500 ''Failed to upload file''))
                     | Some s1 \<Rightarrow> (s1, Inr row))))"

text \<open>The whole request: the middleware writes the part, then the handler runs.\<close>

definition upload_request ::
  "env \<Rightarrow> store \<Rightarrow> uuid \<Rightarrow> req_file \<Rightarrow> bool option \<Rightarrow> uuid \<Rightarrow> timestamp
     \<Rightarrow> store \<times> (failure + file_row)" where
  "upload_request e s uid f isPublic i t = upload e (multer_stored s f) uid (Some f) isPublic i t"

record download_ok =
  content_disposition :: string
  content_type :: string
  content_length :: nat
  streamed_path :: string

definition count_download :: "uuid \<Rightarrow> timestamp \<Rightarrow> file_row \<Rightarrow> file_row" where
  "count_download i t r =
     (if f_id r = i then r\<lparr>download_count := download_count r + 1, f_updated_at := t\<rparr> else r)"

text \<open>
  \<^verbatim>\<open>res.setHeader\<close> throws on a value that holds a character other than a tab, the
  characters from 0x20 to 0x7E and those from 0x80 to 0xFF; a line feed is one. A character
  of the model is a code unit below 256 (a code unit beyond, which a header refuses as well,
  has no counterpart here).
\<close>

definition valid_header_char :: "char \<Rightarrow> bool" where
  "valid_header_char c =
     (let n = (of_char c :: nat) in n = 9 \<or> (32 \<le> n \<and> n \<le> 126) \<or> 128 \<le> n)"

definition checkInvalidHeaderChar :: "string \<Rightarrow> bool" where
  "checkInvalidHeaderChar v = list_ex (\<lambda>c. \<not> valid_header_char c) v"

text \<open>
  \<^verbatim>\<open>GET /files/download/:id\<close>. The first statement binds the path's id to a \<^verbatim>\<open>UUID\<close>
  column and fails on a text the database does not read as one. \<^verbatim>\<open>download_count\<close> is
  a 32-bit \<^verbatim>\<open>INTEGER\<close>: at its largest value the \<^verbatim>\<open>UPDATE\<close> fails instead of wrapping.
  The \<^verbatim>\<open>UPDATE\<close> runs before the headers are set: a header that throws finds the count
  already raised. Every throw ends in the \<^verbatim>\<open>catch\<close> and 500.
\<close>

definition download ::
  "env \<Rightarrow> store \<Rightarrow> uuid \<Rightarrow> string \<Rightarrow> timestamp \<Rightarrow> store \<times> (failure + download_ok)" where
  "download e s uid i t =
     (case uuid_in e i of
        None \<Rightarrow> (s, Inl (Failure 500 ''Failed to download file''))
      | Some k \<Rightarrow>
          (case filter (\<lambda>r. f_id r = k) (files s) of
             [] \<Rightarrow> (s, Inl (Failure 404 ''File not found''))
           | file # rest \<Rightarrow>
               if f_user_id file \<noteq> uid \<and> \<not> is_public file
               then (s, Inl (Failure 403 ''Access denied''))
               else if file_path file \<notin> disk s
               then (s, Inl (Failure 404 ''File not found on disk''))
               else if filter (\<lambda>r. f_id r = k \<and> download_count r = 2147483647) (files s) \<noteq> []
               then (s, Inl (Failure 500 ''Failed to download file''))
               else
                 let s1 = s\<lparr>files := map (count_download k t) (files s)\<rparr>;
                     disposition =
                       ''attachment; filename='' @ [CHR 0x22] @ original_name file @ [CHR 0x22]
                 in if checkInvalidHeaderChar disposition \<or> checkInvalidHeaderChar (mime_type file)
                    then (s1, Inl (Failure 500 ''Failed to download file''))
                    else (s1,
                          Inr \<lparr>content_disposition = disposition,
                               content_type = mime_type file,
                               content_length = file_size file,
                               streamed_path = file_path file\<rparr>)))"

text \<open>
  The assignment of a text to a \<^verbatim>\<open>VARCHAR(n)\<close> column: a text beyond the width is cut
  when all that is cut are spaces, and makes the statement fail otherwise; a text that
  holds the character of code 0 is no text to the database, and the statement fails. An
  absent property assigns nothing.
\<close>

definition varchar :: "nat \<Rightarrow> string \<Rightarrow> string option" where
  "varchar n v =
     (if list_ex (\<lambda>c. c = CHR 0x00) v then None
      else if length v \<le> n then Some v
      else if list_all (\<lambda>c. c = CHR '' '') (drop n v) then Some (take n v)
      else None)"

definition assign_varchar :: "nat \<Rightarrow> string option \<Rightarrow> string option option" where
  "assign_varchar n v =
     (case v of
        None \<Rightarrow> Some None
      | Some x \<Rightarrow> (case varchar n x of None \<Rightarrow> None | Some y \<Rightarrow> Some (Some y)))"

text \<open>
  \<^verbatim>\<open>PUT /files/:id\<close>: the statement is built from the properties present in the body. An
  absent property is \<open>None\<close>; a name that is present and empty is refused by the validator,
  and so is an \<^verbatim>\<open>isPublic\<close> that is not a boolean, which the type leaves out. The
  statement fails, whether or not it meets a row, on an id that is not the text of a UUID
  and on a name the column cannot take.
\<close>

definition patch_file :: "bool option \<Rightarrow> string option \<Rightarrow> timestamp \<Rightarrow> file_row \<Rightarrow> file_row" where
  "patch_file isPublic originalName t r =
     (let r1 = (case isPublic of None \<Rightarrow> r | Some v \<Rightarrow> r\<lparr>is_public := v\<rparr>);
          r2 = (case originalName of None \<Rightarrow> r1 | Some n \<Rightarrow> r1\<lparr>original_name := n\<rparr>)
      in r2\<lparr>f_updated_at := t\<rparr>)"

definition update_file ::
  "env \<Rightarrow> store \<Rightarrow> uuid \<Rightarrow> string \<Rightarrow> bool option \<Rightarrow> string option \<Rightarrow> timestamp
     \<Rightarrow> store \<times> (failure + file_row)" where
  "update_file e s uid i isPublic originalName t =
     (if originalName = Some [] then (s, Inl Invalid)
      else if isPublic = None \<and> originalName = None
      then (s, Inl (Failure 400 ''No fields to update''))
      else
        (case uuid_in e i of
           None \<Rightarrow> (s, Inl (Failure 500 ''Failed to update file''))
         | Some k \<Rightarrow>
             (case assign_varchar 255 originalName of
                None \<Rightarrow> (s, Inl (Failure 500 ''Failed to update file''))
              | Some name \<Rightarrow>
                  let hit = (\<lambda>r. f_id r = k \<and> f_user_id r = uid)
                  in (case map (patch_file isPublic name t) (filter hit (files s)) of
                        [] \<Rightarrow> (s, Inl (Failure 404 ''File not found''))
                      | r # rs \<Rightarrow>
                          (s\<lparr>files := map (\<lambda>r. if hit r then patch_file isPublic name t r else r)
                                          (files s)\<rparr>,
                           Inr r)))))"

text \<open>
  \<^verbatim>\<open>DELETE /files/:id\<close>: the unlink stands in a \<^verbatim>\<open>try\<close> of its own, whose
  \<^verbatim>\<open>catch\<close> only logs, whatever made the unlink fail. The \<^verbatim>\<open>SELECT\<close> before it
  fails on an id that is not the text of a UUID, which ends in the outer \<^verbatim>\<open>catch\<close>.
\<close>

definition delete_file :: "env \<Rightarrow> store \<Rightarrow> uuid \<Rightarrow> string \<Rightarrow> store \<times> (failure + unit)" where
  "delete_file e s uid i =
     (case uuid_in e i of
        None \<Rightarrow> (s, Inl (Failure 500 ''Failed to delete file''))
      | Some k \<Rightarrow>
          let hit = (\<lambda>r. f_id r = k \<and> f_user_id r = uid)
          in (case filter hit (files s) of
                [] \<Rightarrow> (s, Inl (Failure 404 ''File not found''))
              | file # rest \<Rightarrow>
                  let dk = (case fs_unlink e (disk s) (file_path file) of
                              None \<Rightarrow> disk s
                            | Some d \<Rightarrow> d)
                  in (s\<lparr>disk := dk, files := filter (\<lambda>r. \<not> hit r) (files s)\<rparr>, Inr ())))"

text \<open>
  The states that requests to the file router reach from a store without files, one request
  after the other. The router never writes the users table.
\<close>

inductive files_reachable :: "env \<Rightarrow> store \<Rightarrow> bool" for e :: env where
  no_files: "files s = [] \<Longrightarrow> files_reachable e s"
| by_upload: "files_reachable e s \<Longrightarrow> files_reachable e (fst (upload_request e s uid f isPublic i t))"
| by_download: "files_reachable e s \<Longrightarrow> files_reachable e (fst (download e s uid i t))"
| by_update_file:
    "files_reachable e s \<Longrightarrow> files_reachable e (fst (update_file e s uid i isPublic originalName t))"
| by_delete_file: "files_reachable e s \<Longrightarrow> files_reachable e (fst (delete_file e s uid i))"

section \<open>The user router: the profile update\<close>

text \<open>
  \<^verbatim>\<open>PUT /users/profile\<close>, like the file update built from the properties present. The
  arguments are the body after validation and normalisation of the address; a name outside
  1 to 100 characters is refused. A statement that fails (a text the column cannot take,
  an address that after the cut to the column's width is another user's, against
  \<^verbatim>\<open>UNIQUE\<close>) and a caller without a row end in 500.
\<close>

definition patch_user :: "string option \<Rightarrow> string option \<Rightarrow> string option \<Rightarrow> user_row \<Rightarrow> user_row" where
  "patch_user firstName lastName em u =
     (let u1 = (case firstName of None \<Rightarrow> u | Some v \<Rightarrow> u\<lparr>first_name := Some v\<rparr>);
          u2 = (case lastName of None \<Rightarrow> u1 | Some v \<Rightarrow> u1\<lparr>last_name := Some v\<rparr>)
      in (case em of None \<Rightarrow> u2 | Some v \<Rightarrow> u2\<lparr>email := v\<rparr>))"

definition bad_name :: "string option \<Rightarrow> bool" where
  "bad_name n = (case n of None \<Rightarrow> False | Some v \<Rightarrow> length v < 1 \<or> 100 < length v)"

definition update_profile ::
  "store \<Rightarrow> uuid \<Rightarrow> string option \<Rightarrow> string option \<Rightarrow> string option
     \<Rightarrow> store \<times> (failure + user_row)" where
  "update_profile s uid firstName lastName em =
     (if bad_name firstName \<or> bad_name lastName then (s, Inl Invalid)
      else if (case em of None \<Rightarrow> False
               | Some v \<Rightarrow> filter (\<lambda>u. email u = v \<and> u_id u \<noteq> uid) (users s) \<noteq> [])
      then (s, Inl (Failure 400 ''Email already in use''))
      else if firstName = None \<and> lastName = None \<and> em = None
      then (s, Inl (Failure 400 ''No fields to update''))
      else
        (case (assign_varchar 100 firstName, assign_varchar 100 lastName, assign_varchar 255 em) of
           (Some given, Some family, Some address) \<Rightarrow>
             if (case address of None \<Rightarrow> False
                 | Some v \<Rightarrow> filter (\<lambda>u. email u = v \<and> u_id u \<noteq> uid) (users s) \<noteq> [])
             then (s, Inl (Failure 500 ''Failed to update profile''))
             else
               (case map (patch_user given family address)
                         (filter (\<lambda>u. u_id u = uid) (users s)) of
                  [] \<Rightarrow> (s, Inl (Failure 500 ''Failed to update profile''))
                | u # us \<Rightarrow>
                    (s\<lparr>users := map (\<lambda>u. if u_id u = uid
                                           then patch_user given family address u else u)
                                    (users s)\<rparr>,
                     Inr u))
         | _ \<Rightarrow> (s, Inl (Failure 500 ''Failed to update profile''))))"

section \<open>The monitor router\<close>

text \<open>
  A row of the analytics table, with the columns the two queries read. \<open>page\<close> is
  \<^verbatim>\<open>event_data->>'page'\<close>; the referrer is whatever the \<^verbatim>\<open>Referer\<close> header of the
  logging request held, \<^verbatim>\<open>NULL\<close> without one.
\<close>

record event =
  a_user_id :: uuid
  a_domain_id :: "uuid option"
  event_type :: string
  page :: "string option"
  a_referrer :: "string option"
  a_created_at :: timestamp

text \<open>The period of a query in seconds; anything but \<^verbatim>\<open>24h\<close> and \<^verbatim>\<open>30d\<close> is seven days.\<close>

definition dateFilter :: "string \<Rightarrow> nat" where
  "dateFilter period =
     (if period = ''24h'' then 24 * 3600
      else if period = ''7d'' then 7 * 86400
      else if period = ''30d'' then 30 * 86400
      else 7 * 86400)"

text \<open>\<^verbatim>\<open>created_at >= CURRENT_TIMESTAMP - INTERVAL '...'\<close>, without subtracting naturals.\<close>

definition in_period :: "timestamp \<Rightarrow> string \<Rightarrow> event \<Rightarrow> bool" where
  "in_period t period ev = (t \<le> a_created_at ev + dateFilter period)"

text \<open>\<^verbatim>\<open>s LIKE '%p%'\<close> for a pattern \<open>p\<close> of plain characters: \<open>p\<close> occurs in \<open>s\<close>, in the
  same case.\<close>

fun like_infix :: "string \<Rightarrow> string \<Rightarrow> bool" where
  "like_infix [] p = (p = [])"
| "like_infix (c # cs) p = (startsWith (c # cs) p \<or> like_infix cs p)"

text \<open>The \<^verbatim>\<open>CASE\<close> expression of the traffic-source query of
  \<^verbatim>\<open>GET /monitor/analytics\<close>, applied to the referrer column of one row.\<close>

definition traffic_source :: "string option \<Rightarrow> string" where
  "traffic_source referrer =
     (case referrer of
        None \<Rightarrow> ''Direct''
      | Some r \<Rightarrow>
          if r = [] then ''Direct''
          else if like_infix r ''google'' then ''Google''
          else if like_infix r ''facebook'' then ''Facebook''
          else if like_infix r ''twitter'' then ''Twitter''
          else if like_infix r ''linkedin'' then ''LinkedIn''
          else ''Other'')"

text \<open>\<^verbatim>\<open>COUNT(*) ... GROUP BY source\<close>: the visits the query reports for one source.\<close>

definition visits :: "event list \<Rightarrow> uuid \<Rightarrow> timestamp \<Rightarrow> string \<Rightarrow> string \<Rightarrow> nat" where
  "visits evs uid t period src =
     length (filter (\<lambda>ev. a_user_id ev = uid \<and> in_period t period ev
                          \<and> traffic_source (a_referrer ev) = src) evs)"

text \<open>
  Following the specification's words, ``substring match on referrer host'': the host of a
  referrer is what stands between \<^verbatim>\<open>://\<close> (when there is one) and the next \<^verbatim>\<open>/\<close>,
  \<^verbatim>\<open>?\<close> or \<^verbatim>\<open>#\<close>. The handler has no such function; this one is here to be compared
  with it.
\<close>

fun after_scheme :: "string \<Rightarrow> string option" where
  "after_scheme [] = None"
| "after_scheme (c # cs) =
     (if startsWith (c # cs) ''://'' then Some (drop 3 (c # cs)) else after_scheme cs)"

definition referrer_host :: "string \<Rightarrow> string" where
  "referrer_host r =
     takeWhile (\<lambda>c. c \<noteq> CHR ''/'' \<and> c \<noteq> CHR ''?'' \<and> c \<noteq> CHR ''#'')
       (case after_scheme r of None \<Rightarrow> r | Some rest \<Rightarrow> rest)"

definition traffic_source_by_host :: "string option \<Rightarrow> string" where
  "traffic_source_by_host referrer =
     (case referrer of
        None \<Rightarrow> ''Direct''
      | Some r \<Rightarrow> if r = [] then ''Direct'' else
          let h = referrer_host r in
          if like_infix h ''google'' then ''Google''
          else if like_infix h ''facebook'' then ''Facebook''
          else if like_infix h ''twitter'' then ''Twitter''
          else if like_infix h ''linkedin'' then ''LinkedIn''
          else ''Other'')"

subsection \<open>Numbers that are not integers\<close>

text \<open>
  The error percentage divides two counts, so it leaves the integers. A JavaScript number is
  an IEEE 754 double: every arithmetic result is the exact result rounded to the nearest
  number with 53 significant bits, ties to the even one. \<open>to_double\<close> is that rounding,
  for magnitudes between \<open>2^-1022\<close> and \<open>2^1024\<close>, where doubles are
  normal and finite; a percentage and the quotient under it are far inside.
\<close>

fun ilog2 :: "nat \<Rightarrow> nat" where
  "ilog2 n = (if n < 2 then 0 else Suc (ilog2 (n div 2)))"

declare ilog2.simps [simp del]

text \<open>The exponent \<open>k\<close> with \<open>2^k \<le> x < 2^(k+1)\<close>, for positive \<open>x\<close>.\<close>

definition binade :: "real \<Rightarrow> int" where
  "binade x =
     (if 1 \<le> x then int (ilog2 (nat \<lfloor>x\<rfloor>))
      else - int (Suc (ilog2 (nat (\<lceil>1 / x\<rceil> - 1)))))"

definition pow2 :: "int \<Rightarrow> real" where
  "pow2 k = (if 0 \<le> k then 2 ^ nat k else 1 / 2 ^ nat (- k))"

definition round_half_even :: "real \<Rightarrow> int" where
  "round_half_even y =
     (let f = \<lfloor>y\<rfloor>; r = y - of_int f
      in if r < 1 / 2 then f
         else if 1 / 2 < r then f + 1
         else if even f then f else f + 1)"

definition to_double :: "real \<Rightarrow> real" where
  "to_double x =
     (if x = 0 then 0
      else let u = pow2 (binade \<bar>x\<bar> - 52)
           in of_int (round_half_even (x / u)) * u)"

text \<open>\<^verbatim>\<open>Math.round\<close>: the nearest integer, the larger one of two equally near.\<close>

definition Math_round :: "real \<Rightarrow> int" where
  "Math_round x = \<lfloor>x + 1 / 2\<rfloor>"

text \<open>
  The \<^verbatim>\<open>errorPercentage\<close> that \<^verbatim>\<open>GET /monitor/domains/:id/stats\<close> adds to a row of
  the error-rate query. Both counts are \<^verbatim>\<open>COUNT\<close>s, 64-bit integers to the driver. A
  zero divisor, which the guard excludes, would give a number that is not finite; \<open>JNaN\<close>
  stands for it.
\<close>

definition errorPercentage :: "driver \<Rightarrow> nat \<Rightarrow> nat \<Rightarrow> jsval" where
  "errorPercentage dr total_requests errors =
     (if js_gt (decode (int8 dr) total_requests) (JNum 0)
      then (case (parseInt (decode (int8 dr) errors), parseInt (decode (int8 dr) total_requests)) of
              (Some a, Some b) \<Rightarrow>
                if b = 0 then JNaN
                else JNum (Math_round (to_double (to_double (of_int a / of_int b) * 100)))
            | _ \<Rightarrow> JNaN)
      else JNum 0)"

text \<open>
  The error-rate query: the events of the domain within the period, grouped by the day of
  \<open>created_at\<close> in ascending order, each day with its number of events and the number of
  those of type \<^verbatim>\<open>error\<close>. A day is 86400 seconds of the clock, counted from its zero.
\<close>

definition day_of :: "event \<Rightarrow> nat" where
  "day_of ev = a_created_at ev div 86400"

definition domain_events :: "event list \<Rightarrow> uuid \<Rightarrow> timestamp \<Rightarrow> string \<Rightarrow> event list" where
  "domain_events evs did t period =
     filter (\<lambda>ev. a_domain_id ev = Some did \<and> in_period t period ev) evs"

definition errorRateResult :: "event list \<Rightarrow> uuid \<Rightarrow> timestamp \<Rightarrow> string \<Rightarrow> (nat \<times> nat \<times> nat) list" where
  "errorRateResult evs did t period =
     (let sel = domain_events evs did t period
      in map (\<lambda>d. (d,
                    length (filter (\<lambda>ev. day_of ev = d) sel),
                    length (filter (\<lambda>ev. day_of ev = d \<and> event_type ev = ''error'') sel)))
             (sort (remdups (map day_of sel))))"

text \<open>\<^verbatim>\<open>errorRates\<close> of the answer of \<^verbatim>\<open>GET /monitor/domains/:id/stats\<close>: each row of
  the query with its percentage. A domain the caller does not own is a 404; an id that is
  not the text of a UUID makes the first statement fail, which is a 500.\<close>

definition errorRates ::
  "env \<Rightarrow> store \<Rightarrow> event list \<Rightarrow> uuid \<Rightarrow> string \<Rightarrow> timestamp \<Rightarrow> string
     \<Rightarrow> failure + (nat \<times> nat \<times> nat \<times> jsval) list" where
  "errorRates e s evs uid did t period =
     (case uuid_in e did of
        None \<Rightarrow> Inl (Failure 500 ''Failed to fetch domain statistics'')
      | Some k \<Rightarrow>
          if filter (\<lambda>d. d_id d = k \<and> d_user_id d = uid) (domains s) = []
          then Inl (Failure 404 ''Domain not found'')
          else Inr (map (\<lambda>(d, total, errs). (d, total, errs, errorPercentage (drv e) total errs))
                        (errorRateResult evs k t period)))"

text \<open>
  The specification's reading of the percentage: the exact quotient of the two counts, as a
  percentage, rounded to the nearest integer.
\<close>

definition spec_errorPercentage :: "nat \<Rightarrow> nat \<Rightarrow> int" where
  "spec_errorPercentage total_requests errors =
     (if total_requests = 0 then 0 else round (100 * real errors / real total_requests))"

section \<open>Concrete stores\<close>

text \<open>
  Two accounts on the free plan of the schema (1 GiB of storage, two domains), a validator
  that asks a domain name for a dot, the driver as shipped, a database that reads the
  standard form of a UUID (36 characters: lower-case hexadecimal digits, and hyphens after
  the 8th, 12th, 16th and 20th digit; the database reads a few more forms), and a file
  system that refuses no unlink. The theorems below are run on them.
\<close>

definition is_hex :: "char \<Rightarrow> bool" where
  "is_hex c = (c \<in> set ''0123456789abcdef'')"

definition canonical_uuid :: "string \<Rightarrow> bool" where
  "canonical_uuid v =
     (length v = 36
      \<and> v ! 8 = CHR ''-'' \<and> v ! 13 = CHR ''-'' \<and> v ! 18 = CHR ''-'' \<and> v ! 23 = CHR ''-''
      \<and> length (filter is_hex v) = 32)"

definition read_canonical :: "string \<Rightarrow> uuid option" where
  "read_canonical v = (if canonical_uuid v then Some v else None)"

definition example_env :: env where
  "example_env =
     \<lparr>isFQDN = (\<lambda>n. CHR ''.'' \<in> set n), drv = pg_default, RENDER_EXTERNAL_HOSTNAME = None,
      uuid_in = read_canonical, unlink_refused = (\<lambda>p. False)\<rparr>"

text \<open>The same with a file system that refuses every unlink.\<close>

definition read_only_env :: env where
  "read_only_env = example_env\<lparr>unlink_refused := (\<lambda>p. True)\<rparr>"

definition alice :: user_row where
  "alice = \<lparr>u_id = ''alice'', email = ''alice@example.org'', first_name = None,
            last_name = None, storage_quota = 1073741824, domain_quota = 2\<rparr>"

definition bob :: user_row where
  "bob = \<lparr>u_id = ''bob'', email = ''bob@example.org'', first_name = None,
          last_name = None, storage_quota = 1073741824, domain_quota = 2\<rparr>"

definition fresh_store :: store where
  "fresh_store = \<lparr>users = [alice, bob], domains = [], files = [], disk = {}\<rparr>"

text \<open>A private file of 50 MiB that alice has uploaded, with its bytes on disk.\<close>

definition report :: file_row where
  "report =
     \<lparr>f_id = ''f1'', f_user_id = ''alice'', original_name = ''report.pdf'',
      stored_name = ''file-1-2.pdf'', file_path = ''uploads/alice/file-1-2.pdf'',
      file_size = 52428800, mime_type = ''application/pdf'', is_public = False,
      download_count = 0, f_created_at = 1, f_updated_at = 1\<rparr>"

definition store_with_report :: store where
  "store_with_report = fresh_store\<lparr>files := [report], disk := {''uploads/alice/file-1-2.pdf''}\<rparr>"

text \<open>
  A private picture of alice's under the id the database gave it, with its bytes on disk;
  the same row after its bytes were lost; and the row after alice has renamed it to a name
  of two lines.
\<close>

definition photo_id :: uuid where
  "photo_id = ''5b1c7e0a-3f2d-4c8b-9a6e-0d1f2a3b4c5d''"

definition photo :: file_row where
  "photo =
     \<lparr>f_id = photo_id, f_user_id = ''alice'', original_name = ''photo.png'',
      stored_name = ''file-7-8.png'', file_path = ''uploads/alice/file-7-8.png'',
      file_size = 2048, mime_type = ''image/png'', is_public = False,
      download_count = 0, f_created_at = 2, f_updated_at = 2\<rparr>"

definition store_with_photo :: store where
  "store_with_photo = fresh_store\<lparr>files := [photo], disk := {''uploads/alice/file-7-8.png''}\<rparr>"

definition store_photo_lost :: store where
  "store_photo_lost = fresh_store\<lparr>files := [photo]\<rparr>"

definition two_lines :: string where
  "two_lines = ''a'' @ [CHR 0x0A] @ ''b''"

definition store_renamed :: store where
  "store_renamed =
     store_with_photo\<lparr>files := [photo\<lparr>original_name := two_lines, f_updated_at := 8\<rparr>]\<rparr>"

text \<open>
  The row alice's registration of \<^verbatim>\<open>example.com\<close> creates at time 5, the store that
  holds it, and both after a verification that succeeded at time 7.
\<close>

definition example_com :: domain_row where
  "example_com =
     \<lparr>d_id = ''d1'', d_user_id = ''alice'', domain_name = ''example.com'',
      status = ''pending'', ssl_status = ''pending'',
      dns_records = Some (dnsRecords_of example_env ''example.com'' ''d1''),
      verification_token = ''t1'', expires_at = None, auto_renew = Some False,
      d_created_at = 5, d_updated_at = 5, last_verified = None\<rparr>"

definition store_with_domain :: store where
  "store_with_domain = fresh_store\<lparr>domains := [example_com]\<rparr>"

definition store_verified :: store where
  "store_verified =
     fresh_store\<lparr>domains := [example_com\<lparr>status := ''active'', ssl_status := ''active'',
                                            last_verified := Some 7, d_updated_at := 7\<rparr>]\<rparr>"

text \<open>Bob at his quota of two domains, beside alice's registration.\<close>

definition bobs_domain :: "uuid \<Rightarrow> string \<Rightarrow> string \<Rightarrow> domain_row" where
  "bobs_domain i n tok =
     \<lparr>d_id = i, d_user_id = ''bob'', domain_name = n,
      status = ''pending'', ssl_status = ''pending'',
      dns_records = Some (dnsRecords_of example_env n i),
      verification_token = tok, expires_at = None, auto_renew = Some False,
      d_created_at = 6, d_updated_at = 6, last_verified = None\<rparr>"

definition store_bob_full :: store where
  "store_bob_full =
     fresh_store\<lparr>domains := [example_com, bobs_domain ''d2'' ''bob.org'' ''t2'',
                             bobs_domain ''d3'' ''bob.net'' ''t3'']\<rparr>"

text \<open>The part whose upload made that row, and two more parts alice sends: one byte of
  text, and 2 GiB.\<close>

definition report_part :: req_file where
  "report_part =
     \<lparr>rf_originalname = ''report.pdf'', rf_filename = ''file-1-2.pdf'',
      rf_path = ''uploads/alice/file-1-2.pdf'', rf_size = 52428800,
      rf_mimetype = ''application/pdf''\<rparr>"

definition one_byte :: req_file where
  "one_byte =
     \<lparr>rf_originalname = ''a.txt'', rf_filename = ''file-3-4.txt'',
      rf_path = ''uploads/alice/file-3-4.txt'', rf_size = 1, rf_mimetype = ''text/plain''\<rparr>"

definition two_gib :: req_file where
  "two_gib =
     \<lparr>rf_originalname = ''big.zip'', rf_filename = ''file-5-6.zip'',
      rf_path = ''uploads/alice/file-5-6.zip'', rf_size = 2147483648,
      rf_mimetype = ''application/zip''\<rparr>"

text \<open>
  A verified domain of alice's under the id the database gave it, and the scenario of the
  specification: three page views and one error logged for the domain on one day, and the
  query made later that day.
\<close>

definition shop_id :: uuid where
  "shop_id = ''9d2f6c1e-7a4b-4e3d-8c5f-1b0a9e8d7c6f''"

definition shop :: domain_row where
  "shop =
     \<lparr>d_id = shop_id, d_user_id = ''alice'', domain_name = ''shop.example.com'',
      status = ''active'', ssl_status = ''active'',
      dns_records = Some (dnsRecords_of example_env ''shop.example.com'' shop_id),
      verification_token = ''t9'', expires_at = None, auto_renew = Some False,
      d_created_at = 5, d_updated_at = 7, last_verified = Some 7\<rparr>"

definition store_with_shop :: store where
  "store_with_shop = fresh_store\<lparr>domains := [shop]\<rparr>"

definition logged :: "string \<Rightarrow> timestamp \<Rightarrow> event" where
  "logged ty t =
     \<lparr>a_user_id = ''alice'', a_domain_id = Some shop_id, event_type = ty,
      page = Some ''/'', a_referrer = None, a_created_at = t\<rparr>"

definition scenario_events :: "event list" where
  "scenario_events =
     [logged ''page_view'' 100, logged ''page_view'' 200, logged ''error'' 300,
      logged ''page_view'' 400]"

text \<open>
  The events of a later week: two on the tenth day of the clock and four on the eleventh
  for the domain, one that names no domain, and the scenario's, by then out of the period.
\<close>

definition week_events :: "event list" where
  "week_events =
     scenario_events @
     [logged ''error'' 950500, logged ''page_view'' 864100, logged ''page_view'' 950600,
      (logged ''error'' 950650)\<lparr>a_domain_id := None\<rparr>,
      logged ''error'' 864200, logged ''page_view'' 950700, logged ''page_view'' 950800]"

text \<open>One day with 40 events of the domain, 23 of them errors.\<close>

definition tie_events :: "event list" where
  "tie_events = replicate 23 (logged ''error'' 100) @ replicate 17 (logged ''page_view'' 200)"

section \<open>Properties of the value layer\<close>

lemmas example_defs = example_env_def alice_def bob_def fresh_store_def report_def
  store_with_report_def example_com_def store_with_domain_def
  store_verified_def bobs_domain_def store_bob_full_def one_byte_def two_gib_def
  logged_def scenario_events_def report_part_def

lemmas js_defs = dec_digits.simps digit_char_def string_to_number_def is_digit_def
  digits_value_def digit_val_def js_ge_def js_gt_def js_lt_def js_add_def decode_def
  number_to_string_def pg_default_def numbers_only_def


lemma below_ten: "(d::nat) < 10 \<Longrightarrow> d \<in> {0, 1, 2, 3, 4, 5, 6, 7, 8, 9}"
  by auto

lemma digit_val_digit_char: "d < 10 \<Longrightarrow> digit_val (digit_char d) = d"
  using below_ten [of d] by (auto simp: digit_val_def digit_char_def)

lemma is_digit_digit_char: "d < 10 \<Longrightarrow> is_digit (digit_char d)"
  using below_ten [of d] by (auto simp: is_digit_def digit_char_def)

lemma digits_value_snoc: "digits_value (s @ [c]) = 10 * digits_value s + digit_val c"
  by (simp add: digits_value_def)

lemma digits_value_dec_digits: "digits_value (dec_digits n) = n"
proof (induction n rule: dec_digits.induct)
  case (1 n)
  show ?case
  proof (cases "n < 10")
    case True
    then show ?thesis
      by (simp add: dec_digits.simps [of n] digits_value_def digit_val_digit_char)
  next
    case False
    with "1.IH" have "digits_value (dec_digits (n div 10)) = n div 10" by simp
    with False show ?thesis
      by (simp add: dec_digits.simps [of n] digits_value_snoc digit_val_digit_char)
  qed
qed

lemma all_digits_dec_digits: "list_all is_digit (dec_digits n)"
proof (induction n rule: dec_digits.induct)
  case (1 n)
  show ?case
  proof (cases "n < 10")
    case True
    then show ?thesis by (simp add: dec_digits.simps [of n] is_digit_digit_char)
  next
    case False
    with "1.IH" have "list_all is_digit (dec_digits (n div 10))" by simp
    with False show ?thesis by (simp add: dec_digits.simps [of n] is_digit_digit_char)
  qed
qed

lemma dec_digits_nonempty: "dec_digits n \<noteq> []"
  by (subst dec_digits.simps) simp

lemma string_to_number_dec_digits: "string_to_number (dec_digits n) = Some (int n)"
  by (simp add: string_to_number_def dec_digits_nonempty all_digits_dec_digits
      digits_value_dec_digits)

lemma to_number_decode: "to_number (decode d n) = Some (int n)"
  by (cases d) (simp_all add: decode_def string_to_number_dec_digits)

lemma parseInt_decode: "parseInt (decode d n) = Some (int n)"
proof -
  have a: "takeWhile is_digit (dec_digits n) = dec_digits n"
    using all_digits_dec_digits [of n] by (simp add: list_all_iff)
  have "to_string (decode d n) = dec_digits n"
    by (cases d) (simp_all add: decode_def number_to_string_def)
  then show ?thesis
    by (simp add: parseInt_def a dec_digits_nonempty digits_value_dec_digits)
qed

subsection \<open>Rows found by a query\<close>

lemma filter_Nil_find: "filter P xs = [] \<longleftrightarrow> find P xs = None"
  by (induction xs) auto

lemma filter_Cons_find: "filter P xs = y # ys \<Longrightarrow> find P xs = Some y"
  by (induction xs) (auto split: if_splits)

lemma find_Some_filter: "find P xs = Some y \<Longrightarrow> \<exists>ys. filter P xs = y # ys"
  by (induction xs) (auto split: if_splits)

section \<open>The domain router: what each request does to the table\<close>

lemma js_ge_decode: "js_ge (decode d n) (JNum (int q)) = (q \<le> n)"
  by (cases d) (auto simp: js_ge_def decode_def string_to_number_dec_digits)

lemma register_checks_quota:
  assumes "isFQDN e (domainName b)" and "find (\<lambda>u. u_id u = uid) (users s) = Some user"
    and "domain_quota user \<le> length (filter (\<lambda>d. d_user_id d = uid) (domains s))"
  shows "register_checks e s uid b = Some (Failure 400 ''Domain quota exceeded'')"
  using assms by (simp add: register_checks_def js_ge_decode)

lemma register_checks_duplicate:
  assumes "isFQDN e (domainName b)" and "find (\<lambda>u. u_id u = uid) (users s) = Some user"
    and "length (filter (\<lambda>d. d_user_id d = uid) (domains s)) < domain_quota user"
    and "d \<in> set (domains s)" and "domain_name d = domainName b"
  shows "register_checks e s uid b = Some (Failure 400 ''Domain already exists'')"
proof -
  from assms(4,5) have "filter (\<lambda>d. domain_name d = domainName b) (domains s) \<noteq> []"
    by (auto simp: filter_empty_conv)
  with assms(1-3) show ?thesis
    by (simp add: register_checks_def js_ge_decode)
qed

lemma register_checks_existing:
  assumes "d \<in> set (domains s)" and "domain_name d = domainName b"
  shows "register_checks e s uid b \<noteq> None"
proof -
  from assms have "filter (\<lambda>d. domain_name d = domainName b) (domains s) \<noteq> []"
    by (auto simp: filter_empty_conv)
  then show ?thesis
    by (simp add: register_checks_def Let_def split: option.splits)
qed

lemma register_checks_None:
  "register_checks e s uid b = None \<Longrightarrow> domainName b \<notin> set (map domain_name (domains s))"
  by (auto simp: register_checks_def Let_def filter_empty_conv split: option.splits if_splits)

lemma register_writes_domains:
  "domains (fst (register_writes e s uid b fr)) = domains s \<or>
   domains (fst (register_writes e s uid b fr)) =
     map (set_dns_records (new_id fr) (dnsRecords_of e (domainName b) (new_id fr)) (now fr))
       (domains s @ [new_domain_row uid (domainName b) (case autoRenew b of None \<Rightarrow> False | Some v \<Rightarrow> v) fr])"
  by (auto simp: register_writes_def Let_def insert_domain_def new_domain_row_def split: option.splits if_splits)

lemma register_domains:
  "domains (fst (register e s uid b fr)) = domains s \<or>
   (domainName b \<notin> set (map domain_name (domains s)) \<and>
    domains (fst (register e s uid b fr)) =
     map (set_dns_records (new_id fr) (dnsRecords_of e (domainName b) (new_id fr)) (now fr))
       (domains s @ [new_domain_row uid (domainName b) (case autoRenew b of None \<Rightarrow> False | Some v \<Rightarrow> v) fr]))"
proof (cases "register_checks e s uid b")
  case None
  then show ?thesis
    using register_writes_domains [of e s uid b fr] register_checks_None [OF None]
    by (simp add: register_def)
next
  case (Some f)
  then show ?thesis by (simp add: register_def)
qed

lemma js_get_verify_id: "js_get (verify_columns d) ''id'' = JStr (d_id d)"
  by (simp add: js_get_def verify_columns_def)

lemma js_get_verify_dns: "js_get (verify_columns d) ''dns_records'' = JUndefined"
  by (simp add: js_get_def verify_columns_def)

lemma verify_domains:
  "domains (fst (verify s uid did rnd t)) = domains s \<or>
   domains (fst (verify s uid did rnd t)) = map (set_active (JStr did) t) (domains s)"
proof (cases "filter (\<lambda>d. d_id d = did \<and> d_user_id d = uid) (domains s)")
  case Nil
  then show ?thesis by (simp add: verify_def)
next
  case (Cons d ds)
  then have "d \<in> set (filter (\<lambda>d. d_id d = did \<and> d_user_id d = uid) (domains s))" by simp
  then have "d_id d = did" by simp
  with Cons show ?thesis by (simp add: verify_def Let_def js_get_verify_id)
qed

lemma update_domains:
  "domains (fst (update_domain s uid did ar t)) = domains s \<or>
   domains (fst (update_domain s uid did ar t)) =
     map (\<lambda>d. if d_id d = did \<and> d_user_id d = uid then d\<lparr>auto_renew := ar, d_updated_at := t\<rparr> else d) (domains s)"
  by (simp add: update_domain_def Let_def split: list.splits)

lemma delete_domains:
  "domains (fst (delete_domain s uid did)) = domains s \<or>
   domains (fst (delete_domain s uid did)) = filter (\<lambda>d. \<not> (d_id d = did \<and> d_user_id d = uid)) (domains s)"
  by (simp add: delete_domain_def Let_def)

section \<open>The domain router: invariants of the reachable tables\<close>

lemma status_set_dns [simp]:
  "status (set_dns_records i dns t d) = status d"
  "ssl_status (set_dns_records i dns t d) = ssl_status d"
  "domain_name (set_dns_records i dns t d) = domain_name d"
  by (simp_all add: set_dns_records_def)

lemma name_set_active [simp]: "domain_name (set_active i t d) = domain_name d"
  by (simp add: set_active_def)

lemma row_ok_set_dns: "row_ok d \<Longrightarrow> row_ok (set_dns_records i dns t d)"
  by (simp add: row_ok_def)

lemma row_ok_set_active: "row_ok d \<Longrightarrow> row_ok (set_active i t d)"
  by (simp add: row_ok_def set_active_def)

lemma row_ok_new: "row_ok (new_domain_row uid dn ar fr)"
  by (simp add: row_ok_def new_domain_row_def)

lemma row_ok_auto_renew: "row_ok (d\<lparr>auto_renew := ar, d_updated_at := t\<rparr>) = row_ok d"
  by (simp add: row_ok_def)

lemma reachable_rows_ok:
  assumes "reachable e s"
  shows "\<forall>d \<in> set (domains s). row_ok d"
  using assms
proof (induction rule: reachable.induct)
  case (start s)
  then show ?case by simp
next
  case (by_register s uid b fr)
  then show ?case
    using register_domains [of e s uid b fr]
    by (auto simp: row_ok_set_dns row_ok_new)
next
  case (by_verify s uid did rnd t)
  then show ?case
    using verify_domains [of s uid did rnd t]
    by (auto simp: row_ok_set_active)
next
  case (by_update s uid did ar t)
  then show ?case
    using update_domains [of s uid did ar t]
    by (auto simp: row_ok_auto_renew)
next
  case (by_delete s uid did)
  then show ?case
    using delete_domains [of s uid did] by auto
next
  case (by_users s us)
  then show ?case by (simp add: users_changed_def)
qed

lemma name_comp_set_dns [simp]: "domain_name \<circ> set_dns_records i dns t = domain_name"
  by (rule ext) simp

lemma name_comp_set_active [simp]: "domain_name \<circ> set_active i t = domain_name"
  by (rule ext) simp

lemma reachable_names_distinct:
  assumes "reachable e s"
  shows "distinct (map domain_name (domains s))"
  using assms
proof (induction rule: reachable.induct)
  case (start s)
  then show ?case by simp
next
  case (by_register s uid b fr)
  from register_domains [of e s uid b fr] show ?case
  proof
    assume "domains (fst (register e s uid b fr)) = domains s"
    with by_register.IH show ?thesis by simp
  next
    assume a: "domainName b \<notin> set (map domain_name (domains s)) \<and>
      domains (fst (register e s uid b fr)) =
        map (set_dns_records (new_id fr) (dnsRecords_of e (domainName b) (new_id fr)) (now fr))
          (domains s @ [new_domain_row uid (domainName b)
             (case autoRenew b of None \<Rightarrow> False | Some v \<Rightarrow> v) fr])"
    have "domain_name (new_domain_row uid (domainName b)
             (case autoRenew b of None \<Rightarrow> False | Some v \<Rightarrow> v) fr) = domainName b"
      by (simp add: new_domain_row_def)
    with a by_register.IH show ?thesis by simp
  qed
next
  case (by_verify s uid did rnd t)
  then show ?case
    using verify_domains [of s uid did rnd t]
    by auto
next
  case (by_update s uid did ar t)
  have "map domain_name (map (\<lambda>d. if d_id d = did \<and> d_user_id d = uid
          then d\<lparr>auto_renew := ar, d_updated_at := t\<rparr> else d) (domains s))
        = map domain_name (domains s)"
    by (induction "domains s") auto
  with by_update show ?case
    using update_domains [of s uid did ar t] by (auto simp del: map_map)
next
  case (by_delete s uid did)
  then show ?case
    using delete_domains [of s uid did] by (auto simp: distinct_map_filter)
next
  case (by_users s us)
  then show ?case by (simp add: users_changed_def distinct_map_filter)
qed

subsection \<open>The example stores are what the handlers produce\<close>

lemma register_example:
  "register example_env fresh_store ''alice'' \<lparr>domainName = ''example.com'', autoRenew = None\<rparr>
     \<lparr>new_id = ''d1'', new_token = ''t1'', now = 5\<rparr>
   = (store_with_domain,
      Inr \<lparr>r_id = ''d1'', r_domainName = ''example.com'', r_status = ''pending'',
           r_verificationToken = ''t1'',
           r_dnsRecords = dnsRecords_of example_env ''example.com'' ''d1'',
           r_autoRenew = False\<rparr>)"
  by (simp add: register_def register_checks_def register_writes_def insert_domain_def
      new_domain_row_def set_dns_records_def example_defs js_defs Let_def)

lemma verify_example:
  "verify store_with_domain ''alice'' ''d1'' (1 / 2) 7
     = (store_verified, Inr \<lparr>v_status = ''active'', v_sslStatus = ''active''\<rparr>)"
  by (simp add: verify_def verify_columns_def js_get_def set_active_def example_defs Let_def)

lemma reachable_store_with_domain: "reachable example_env store_with_domain"
proof -
  have "reachable example_env fresh_store"
    by (rule reachable.start) (simp add: fresh_store_def)
  from reachable.by_register [OF this, of "''alice''"
      "\<lparr>domainName = ''example.com'', autoRenew = None\<rparr>"
      "\<lparr>new_id = ''d1'', new_token = ''t1'', now = 5\<rparr>"]
  show ?thesis by (simp add: register_example)
qed

lemma reachable_store_verified: "reachable example_env store_verified"
  using reachable.by_verify [OF reachable_store_with_domain, of "''alice''" "''d1''" "1 / 2" 7]
  by (simp add: verify_example)

lemma register_bob_org:
  "fst (register example_env store_with_domain ''bob''
          \<lparr>domainName = ''bob.org'', autoRenew = None\<rparr>
          \<lparr>new_id = ''d2'', new_token = ''t2'', now = 6\<rparr>)
   = fresh_store\<lparr>domains := [example_com, bobs_domain ''d2'' ''bob.org'' ''t2'']\<rparr>"
  by (simp add: register_def register_checks_def register_writes_def insert_domain_def
      new_domain_row_def set_dns_records_def example_defs js_defs Let_def)

lemma register_bob_net:
  "fst (register example_env
          (fresh_store\<lparr>domains := [example_com, bobs_domain ''d2'' ''bob.org'' ''t2'']\<rparr>) ''bob''
          \<lparr>domainName = ''bob.net'', autoRenew = None\<rparr>
          \<lparr>new_id = ''d3'', new_token = ''t3'', now = 6\<rparr>)
   = store_bob_full"
  by (simp add: register_def register_checks_def register_writes_def insert_domain_def
      new_domain_row_def set_dns_records_def example_defs js_defs Let_def)

lemma reachable_store_bob_full: "reachable example_env store_bob_full"
proof -
  from reachable.by_register [OF reachable_store_with_domain, of "''bob''"
      "\<lparr>domainName = ''bob.org'', autoRenew = None\<rparr>"
      "\<lparr>new_id = ''d2'', new_token = ''t2'', now = 6\<rparr>"]
  have "reachable example_env
          (fresh_store\<lparr>domains := [example_com, bobs_domain ''d2'' ''bob.org'' ''t2'']\<rparr>)"
    by (simp only: register_bob_org)
  from reachable.by_register [OF this, of "''bob''"
      "\<lparr>domainName = ''bob.net'', autoRenew = None\<rparr>"
      "\<lparr>new_id = ''d3'', new_token = ''t3'', now = 6\<rparr>"]
  show ?thesis by (simp only: register_bob_net)
qed

text \<open>
  C9. In every table the router reaches from an empty one by registrations, verifications,
  updates and deletions (of any users, in any order), each row has \<open>status\<close> pending or
  active and \<open>ssl_status\<close> pending or active; \<open>error\<close> and \<open>expired\<close> are never written.
\<close>

theorem router_never_writes_error_or_expired:
  assumes "reachable e s" and "d \<in> set (domains s)"
  shows "(status d = ''pending'' \<or> status d = ''active'')
       \<and> (ssl_status d = ''pending'' \<or> ssl_status d = ''active'')
       \<and> status d \<noteq> ''error'' \<and> status d \<noteq> ''expired'' \<and> ssl_status d \<noteq> ''error''"
proof -
  from reachable_rows_ok [OF assms(1)] assms(2) have "row_ok d" by simp
  then have a: "status d = ''pending'' \<or> status d = ''active''" and b: "ssl_status d = status d"
    by (simp_all add: row_ok_def)
  from a show ?thesis
  proof
    assume "status d = ''pending''"
    with b show ?thesis by simp
  next
    assume "status d = ''active''"
    with b show ?thesis by simp
  qed
qed

theorem router_never_writes_error_or_expired_witness:
  "reachable example_env store_verified
   \<and> domains store_verified
       = [example_com\<lparr>status := ''active'', ssl_status := ''active'',
                      last_verified := Some 7, d_updated_at := 7\<rparr>]
   \<and> status (hd (domains store_verified)) = ''active''
   \<and> ssl_status (hd (domains store_verified)) = ''active''
   \<and> status (hd (domains store_verified)) \<noteq> ''error''
   \<and> status (hd (domains store_verified)) \<noteq> ''expired''
   \<and> ssl_status (hd (domains store_verified)) \<noteq> ''error''"
proof -
  have m: "hd (domains store_verified) \<in> set (domains store_verified)"
    by (simp add: store_verified_def fresh_store_def)
  have v: "status (hd (domains store_verified)) \<noteq> ''pending''"
    "ssl_status (hd (domains store_verified)) \<noteq> ''pending''"
    "domains store_verified
       = [example_com\<lparr>status := ''active'', ssl_status := ''active'',
                      last_verified := Some 7, d_updated_at := 7\<rparr>]"
    by (simp_all add: store_verified_def fresh_store_def)
  note t = router_never_writes_error_or_expired [OF reachable_store_verified m]
  from t v(1) have 1: "status (hd (domains store_verified)) = ''active''" by simp
  from t v(2) have 2: "ssl_status (hd (domains store_verified)) = ''active''" by simp
  from reachable_store_verified v(3) 1 2 t show ?thesis by (intro conjI) simp_all
qed

text \<open>
  C5. A registration that passed validation, by a caller who has a user row: when the
  caller's domain rows number at least the caller's quota it fails with
  \<^verbatim>\<open>Domain quota exceeded\<close>, whether or not the name is taken; below the quota it fails
  with \<^verbatim>\<open>Domain already exists\<close> when some row, of any user, has exactly that name.
  Both hold for either decoding of the count by the driver.
\<close>

theorem register_quota_before_duplicate:
  assumes "isFQDN e (domainName b)" and "find (\<lambda>u. u_id u = uid) (users s) = Some user"
  shows "(domain_quota user \<le> length (filter (\<lambda>d. d_user_id d = uid) (domains s))
            \<longrightarrow> register e s uid b fr = (s, Inl (Failure 400 ''Domain quota exceeded'')))
       \<and> (length (filter (\<lambda>d. d_user_id d = uid) (domains s)) < domain_quota user
            \<and> domainName b \<in> set (map domain_name (domains s))
            \<longrightarrow> register e s uid b fr = (s, Inl (Failure 400 ''Domain already exists'')))"
proof (intro conjI impI)
  assume "domain_quota user \<le> length (filter (\<lambda>d. d_user_id d = uid) (domains s))"
  with assms show "register e s uid b fr = (s, Inl (Failure 400 ''Domain quota exceeded''))"
    by (simp add: register_def register_checks_quota)
next
  assume a: "length (filter (\<lambda>d. d_user_id d = uid) (domains s)) < domain_quota user
            \<and> domainName b \<in> set (map domain_name (domains s))"
  then obtain d where "d \<in> set (domains s)" and "domain_name d = domainName b" by auto
  with assms a show "register e s uid b fr = (s, Inl (Failure 400 ''Domain already exists''))"
    by (simp add: register_def register_checks_duplicate)
qed

theorem register_quota_before_duplicate_witness:
  "register example_env store_bob_full ''bob'' \<lparr>domainName = ''example.com'', autoRenew = None\<rparr>
       \<lparr>new_id = ''d4'', new_token = ''t4'', now = 8\<rparr>
     = (store_bob_full, Inl (Failure 400 ''Domain quota exceeded''))
   \<and> register example_env store_with_domain ''bob'' \<lparr>domainName = ''example.com'', autoRenew = None\<rparr>
       \<lparr>new_id = ''d4'', new_token = ''t4'', now = 8\<rparr>
     = (store_with_domain, Inl (Failure 400 ''Domain already exists''))
   \<and> snd (register example_env store_with_domain ''bob''
            \<lparr>domainName = ''Example.com'', autoRenew = None\<rparr>
            \<lparr>new_id = ''d4'', new_token = ''t4'', now = 8\<rparr>)
     = Inr \<lparr>r_id = ''d4'', r_domainName = ''Example.com'', r_status = ''pending'',
            r_verificationToken = ''t4'',
            r_dnsRecords = dnsRecords_of example_env ''Example.com'' ''d4'',
            r_autoRenew = False\<rparr>"
proof -
  have v: "isFQDN example_env (domainName \<lparr>domainName = ''example.com'', autoRenew = None\<rparr>)"
    by (simp add: example_env_def)
  have u1: "find (\<lambda>u. u_id u = ''bob'') (users store_bob_full) = Some bob"
    and u2: "find (\<lambda>u. u_id u = ''bob'') (users store_with_domain) = Some bob"
    by (simp_all add: example_defs)
  have q1: "domain_quota bob \<le> length (filter (\<lambda>d. d_user_id d = ''bob'') (domains store_bob_full))"
    by (simp add: example_defs)
  have q2: "length (filter (\<lambda>d. d_user_id d = ''bob'') (domains store_with_domain)) < domain_quota bob
      \<and> domainName \<lparr>domainName = ''example.com'', autoRenew = None\<rparr>
          \<in> set (map domain_name (domains store_with_domain))"
    by (simp add: example_defs)
  have 1: "register example_env store_bob_full ''bob'' \<lparr>domainName = ''example.com'', autoRenew = None\<rparr>
       \<lparr>new_id = ''d4'', new_token = ''t4'', now = 8\<rparr>
     = (store_bob_full, Inl (Failure 400 ''Domain quota exceeded''))"
    by (rule register_quota_before_duplicate [OF v u1, THEN conjunct1, rule_format, OF q1])
  have 2: "register example_env store_with_domain ''bob'' \<lparr>domainName = ''example.com'', autoRenew = None\<rparr>
       \<lparr>new_id = ''d4'', new_token = ''t4'', now = 8\<rparr>
     = (store_with_domain, Inl (Failure 400 ''Domain already exists''))"
    by (rule register_quota_before_duplicate [OF v u2, THEN conjunct2, rule_format, OF q2])
  have 3: "snd (register example_env store_with_domain ''bob''
            \<lparr>domainName = ''Example.com'', autoRenew = None\<rparr>
            \<lparr>new_id = ''d4'', new_token = ''t4'', now = 8\<rparr>)
     = Inr \<lparr>r_id = ''d4'', r_domainName = ''Example.com'', r_status = ''pending'',
            r_verificationToken = ''t4'',
            r_dnsRecords = dnsRecords_of example_env ''Example.com'' ''d4'',
            r_autoRenew = False\<rparr>"
    by (simp add: register_def register_checks_def register_writes_def insert_domain_def
      new_domain_row_def set_dns_records_def example_defs js_defs Let_def)
  from 1 2 3 show ?thesis by (intro conjI)
qed

text \<open>
  C3, as amended. In every table reached by requests that run one after the other, no two
  rows have the same name. Registering a name that a row of any user already has leaves the
  store as it was and fails; for a request that passed validation, by a caller with a user
  row, the failure is \<^verbatim>\<open>Domain quota exceeded\<close> when the caller is at the quota and
  \<^verbatim>\<open>Domain already exists\<close> otherwise.
\<close>

theorem domain_names_unique_in_sequence:
  assumes "reachable e s"
  shows "distinct (map domain_name (domains s))
       \<and> (\<forall>uid b fr. domainName b \<in> set (map domain_name (domains s)) \<longrightarrow>
            fst (register e s uid b fr) = s
          \<and> (\<exists>f. snd (register e s uid b fr) = Inl f)
          \<and> (\<forall>user. isFQDN e (domainName b)
                 \<and> find (\<lambda>u. u_id u = uid) (users s) = Some user \<longrightarrow>
                snd (register e s uid b fr)
                  = Inl (if domain_quota user
                            \<le> length (filter (\<lambda>d. d_user_id d = uid) (domains s))
                         then Failure 400 ''Domain quota exceeded''
                         else Failure 400 ''Domain already exists'')))"
proof (intro conjI allI impI)
  show "distinct (map domain_name (domains s))"
    using assms by (rule reachable_names_distinct)
next
  fix uid :: uuid and b :: add_domain_body and fr :: fresh
  assume "domainName b \<in> set (map domain_name (domains s))"
  then obtain d where d: "d \<in> set (domains s)" "domain_name d = domainName b" by auto
  from register_checks_existing [OF d, of e uid]
  obtain f where f: "register_checks e s uid b = Some f" by auto
  then show "fst (register e s uid b fr) = s" by (simp add: register_def)
  from f show "\<exists>f. snd (register e s uid b fr) = Inl f" by (simp add: register_def)
  fix user :: user_row
  assume u: "isFQDN e (domainName b) \<and> find (\<lambda>u. u_id u = uid) (users s) = Some user"
  show "snd (register e s uid b fr)
          = Inl (if domain_quota user \<le> length (filter (\<lambda>d. d_user_id d = uid) (domains s))
                 then Failure 400 ''Domain quota exceeded''
                 else Failure 400 ''Domain already exists'')"
  proof (cases "domain_quota user \<le> length (filter (\<lambda>d. d_user_id d = uid) (domains s))")
    case True
    with u show ?thesis by (simp add: register_def register_checks_quota)
  next
    case False
    with u d show ?thesis by (simp add: register_def register_checks_duplicate)
  qed
qed

theorem domain_names_unique_in_sequence_witness:
  "reachable example_env store_bob_full
   \<and> map domain_name (domains store_bob_full) = [''example.com'', ''bob.org'', ''bob.net'']
   \<and> distinct (map domain_name (domains store_bob_full))
   \<and> fst (register example_env store_bob_full ''alice''
            \<lparr>domainName = ''bob.org'', autoRenew = None\<rparr>
            \<lparr>new_id = ''d4'', new_token = ''t4'', now = 8\<rparr>) = store_bob_full
   \<and> snd (register example_env store_bob_full ''alice''
            \<lparr>domainName = ''bob.org'', autoRenew = None\<rparr>
            \<lparr>new_id = ''d4'', new_token = ''t4'', now = 8\<rparr>)
       = Inl (Failure 400 ''Domain already exists'')"
proof -
  note t = domain_names_unique_in_sequence [OF reachable_store_bob_full]
  have n: "map domain_name (domains store_bob_full) = [''example.com'', ''bob.org'', ''bob.net'']"
    by (simp add: example_defs)
  have m: "domainName \<lparr>domainName = ''bob.org'', autoRenew = None\<rparr>
             \<in> set (map domain_name (domains store_bob_full))"
    by (simp add: example_defs)
  have u: "isFQDN example_env (domainName \<lparr>domainName = ''bob.org'', autoRenew = None\<rparr>)
         \<and> find (\<lambda>u. u_id u = ''alice'') (users store_bob_full) = Some alice"
    by (simp add: example_defs)
  have q: "\<not> domain_quota alice
             \<le> length (filter (\<lambda>d. d_user_id d = ''alice'') (domains store_bob_full))"
    by (simp add: example_defs)
  note r = t [THEN conjunct2, rule_format, OF m]
  have 1: "fst (register example_env store_bob_full ''alice''
            \<lparr>domainName = ''bob.org'', autoRenew = None\<rparr>
            \<lparr>new_id = ''d4'', new_token = ''t4'', now = 8\<rparr>) = store_bob_full"
    by (rule r [THEN conjunct1])
  have 2: "snd (register example_env store_bob_full ''alice''
            \<lparr>domainName = ''bob.org'', autoRenew = None\<rparr>
            \<lparr>new_id = ''d4'', new_token = ''t4'', now = 8\<rparr>)
       = Inl (Failure 400 ''Domain already exists'')"
    using r [THEN conjunct2, THEN conjunct2, rule_format, OF u] q by simp
  from reachable_store_bob_full n t [THEN conjunct1] 1 2 show ?thesis by (intro conjI)
qed

text \<open>
  C3 as stated fails where the caller is at the quota: bob holds two domains, asks for the
  name alice has registered, and is told that his quota is exceeded, not that the name
  exists.
\<close>

theorem duplicate_name_at_quota_counterexample:
  "reachable example_env store_bob_full
   \<and> ''example.com'' \<in> set (map domain_name (domains store_bob_full))
   \<and> snd (register example_env store_bob_full ''bob''
            \<lparr>domainName = ''example.com'', autoRenew = None\<rparr>
            \<lparr>new_id = ''d4'', new_token = ''t4'', now = 8\<rparr>)
       = Inl (Failure 400 ''Domain quota exceeded'')
   \<and> snd (register example_env store_bob_full ''bob''
            \<lparr>domainName = ''example.com'', autoRenew = None\<rparr>
            \<lparr>new_id = ''d4'', new_token = ''t4'', now = 8\<rparr>)
       \<noteq> Inl (Failure 400 ''Domain already exists'')"
proof -
  have n: "''example.com'' \<in> set (map domain_name (domains store_bob_full))"
    by (simp add: example_defs)
  have r: "snd (register example_env store_bob_full ''bob''
            \<lparr>domainName = ''example.com'', autoRenew = None\<rparr>
            \<lparr>new_id = ''d4'', new_token = ''t4'', now = 8\<rparr>)
       = Inl (Failure 400 ''Domain quota exceeded'')"
    by (simp add: register_def register_checks_def example_defs js_defs Let_def)
  from reachable_store_bob_full n r show ?thesis by simp
qed

text \<open>
  The uniqueness rests on the handler's own query alone. When the reads of a second request
  for the same name run before the insert of the first (each \<^verbatim>\<open>await\<close> lets another
  request run), both pass, and the schema, which has no \<^verbatim>\<open>UNIQUE\<close> constraint on
  \<^verbatim>\<open>domain_name\<close>, takes both rows.
\<close>

theorem interleaved_registrations_duplicate_name:
  "register_checks example_env fresh_store ''alice''
       \<lparr>domainName = ''example.com'', autoRenew = None\<rparr> = None
   \<and> register_checks example_env fresh_store ''bob''
       \<lparr>domainName = ''example.com'', autoRenew = None\<rparr> = None
   \<and> map (\<lambda>d. (d_user_id d, domain_name d))
        (domains (fst (register_writes example_env
           (fst (register_writes example_env fresh_store ''alice''
                   \<lparr>domainName = ''example.com'', autoRenew = None\<rparr>
                   \<lparr>new_id = ''d1'', new_token = ''t1'', now = 5\<rparr>))
           ''bob'' \<lparr>domainName = ''example.com'', autoRenew = None\<rparr>
           \<lparr>new_id = ''d2'', new_token = ''t2'', now = 5\<rparr>)))
       = [(''alice'', ''example.com''), (''bob'', ''example.com'')]"
  by (simp add: register_checks_def register_writes_def insert_domain_def
      new_domain_row_def set_dns_records_def example_defs js_defs Let_def)

text \<open>
  What a verification does to a pending domain of the caller: with a draw above 0.3 the row
  becomes active in both columns with \<open>last_verified\<close> set, in one statement, and every
  other row stays as it was; with any other draw nothing is written. The answer of the
  failing case carries \<^verbatim>\<open>domain.dns_records\<close>, a column the handler's
  \<^verbatim>\<open>SELECT\<close> does not read: the property is \<^verbatim>\<open>undefined\<close>.
\<close>

theorem verify_pending_all_or_nothing:
  assumes "find (\<lambda>d. d_id d = did \<and> d_user_id d = uid) (domains s) = Some d"
    and "status d = ''pending''" and "ssl_status d = ''pending''"
  shows "(3 / 10 < rnd \<longrightarrow>
            snd (verify s uid did rnd t) = Inr \<lparr>v_status = ''active'', v_sslStatus = ''active''\<rparr>
          \<and> fst (verify s uid did rnd t)
              = s\<lparr>domains := map (\<lambda>r. if d_id r = did
                                       then r\<lparr>status := ''active'', ssl_status := ''active'',
                                              last_verified := Some t, d_updated_at := t\<rparr>
                                       else r) (domains s)\<rparr>)
       \<and> (\<not> 3 / 10 < rnd \<longrightarrow> verify s uid did rnd t = (s, Inl (VerifyFailure JUndefined)))"
proof -
  from assms(1) obtain ds where f: "filter (\<lambda>d. d_id d = did \<and> d_user_id d = uid) (domains s) = d # ds"
    using find_Some_filter by fastforce
  then have "d \<in> set (filter (\<lambda>d. d_id d = did \<and> d_user_id d = uid) (domains s))" by simp
  then have i: "d_id d = did" by simp
  have m: "set_active (JStr did) t = (\<lambda>r. if d_id r = did
                                       then r\<lparr>status := ''active'', ssl_status := ''active'',
                                              last_verified := Some t, d_updated_at := t\<rparr>
                                       else r)"
    by (rule ext) (simp add: set_active_def)
  show ?thesis
    using f i by (simp add: verify_def Let_def js_get_verify_id js_get_verify_dns m)
qed

theorem verify_pending_all_or_nothing_witness:
  "verify store_with_domain ''alice'' ''d1'' (1 / 10) 7
     = (store_with_domain, Inl (VerifyFailure JUndefined))
   \<and> snd (verify store_with_domain ''alice'' ''d1'' (1 / 2) 7)
     = Inr \<lparr>v_status = ''active'', v_sslStatus = ''active''\<rparr>
   \<and> domains (fst (verify store_with_domain ''alice'' ''d1'' (1 / 2) 7))
     = [example_com\<lparr>status := ''active'', ssl_status := ''active'',
                    last_verified := Some 7, d_updated_at := 7\<rparr>]"
proof -
  have a: "find (\<lambda>d. d_id d = ''d1'' \<and> d_user_id d = ''alice'') (domains store_with_domain)
             = Some example_com"
    and b: "status example_com = ''pending''" and c: "ssl_status example_com = ''pending''"
    by (simp_all add: example_defs)
  have lo: "\<not> 3 / 10 < (1 / 10 :: real)" and hi: "3 / 10 < (1 / 2 :: real)" by simp_all
  note t1 = verify_pending_all_or_nothing [OF a b c, of "1 / 10" 7]
  note t2 = verify_pending_all_or_nothing [OF a b c, of "1 / 2" 7]
  have 1: "verify store_with_domain ''alice'' ''d1'' (1 / 10) 7
     = (store_with_domain, Inl (VerifyFailure JUndefined))"
    by (rule t1 [THEN conjunct2, rule_format, OF lo])
  note u = t2 [THEN conjunct1, rule_format, OF hi]
  have 2: "snd (verify store_with_domain ''alice'' ''d1'' (1 / 2) 7)
     = Inr \<lparr>v_status = ''active'', v_sslStatus = ''active''\<rparr>"
    by (rule u [THEN conjunct1])
  have 3: "domains (fst (verify store_with_domain ''alice'' ''d1'' (1 / 2) 7))
     = [example_com\<lparr>status := ''active'', ssl_status := ''active'',
                    last_verified := Some 7, d_updated_at := 7\<rparr>]"
    by (simp add: u [THEN conjunct2]) (simp add: example_defs)
  from 1 2 3 show ?thesis by (intro conjI)
qed

text \<open>
  C2. The failing verification of alice's pending domain: the row holds the DNS records
  that registration stored, the store is unchanged, and the \<^verbatim>\<open>dnsRecords\<close> of the
  answer is \<^verbatim>\<open>undefined\<close> instead of them.
\<close>

theorem verify_failure_omits_stored_dns_records:
  "map dns_records (domains store_with_domain)
     = [Some (dnsRecords_of example_env ''example.com'' ''d1'')]
   \<and> verify store_with_domain ''alice'' ''d1'' (1 / 10) 7
     = (store_with_domain, Inl (VerifyFailure JUndefined))
   \<and> JUndefined \<noteq> dnsRecords_of example_env ''example.com'' ''d1''"
  by (simp add: verify_def verify_columns_def js_get_def Let_def example_defs dnsRecords_of_def)

section \<open>The update of a domain against the updates of a file and of a profile\<close>

lemma patch_file_omitted:
  "is_public (patch_file None n t r) = is_public r"
  "original_name (patch_file p None t r) = original_name r"
  by (simp_all add: patch_file_def Let_def split: option.splits)

lemma patch_user_omitted:
  "first_name (patch_user None l m u) = first_name u"
  "last_name (patch_user f None m u) = last_name u"
  "email (patch_user f l None u) = email u"
  by (simp_all add: patch_user_def Let_def split: option.splits)

text \<open>
  C10. An update of a domain the caller owns succeeds and writes the request's
  \<^verbatim>\<open>autoRenew\<close> into \<open>auto_renew\<close> of that row (and of no row of another id or
  owner), whatever it is: a body without the property writes \<^verbatim>\<open>NULL\<close>. The file and
  the profile update instead refuse a body with none of their properties and leave the
  column of an omitted property as it was.
\<close>

theorem update_domain_always_binds_autoRenew:
  assumes "d \<in> set (domains s)" and "d_id d = did" and "d_user_id d = uid"
  shows "(\<exists>r. snd (update_domain s uid did ar t) = Inr r \<and> auto_renew r = ar)
       \<and> domains (fst (update_domain s uid did ar t))
           = map (\<lambda>r. if d_id r = did \<and> d_user_id r = uid
                       then r\<lparr>auto_renew := ar, d_updated_at := t\<rparr> else r) (domains s)
       \<and> update_file e' s' uid' i None None t' = (s', Inl (Failure 400 ''No fields to update''))
       \<and> is_public (patch_file None n t' r) = is_public r
       \<and> original_name (patch_file p None t' r) = original_name r
       \<and> update_profile s' uid' None None None = (s', Inl (Failure 400 ''No fields to update''))
       \<and> first_name (patch_user None l m u) = first_name u
       \<and> last_name (patch_user f None m u) = last_name u
       \<and> email (patch_user f l None u) = email u"
proof -
  from assms have "d \<in> set (filter (\<lambda>r. d_id r = did \<and> d_user_id r = uid) (domains s))"
    by simp
  then obtain x xs where f: "filter (\<lambda>r. d_id r = did \<and> d_user_id r = uid) (domains s) = x # xs"
    by (cases "filter (\<lambda>r. d_id r = did \<and> d_user_id r = uid) (domains s)") auto
  have 1: "\<exists>r. snd (update_domain s uid did ar t) = Inr r \<and> auto_renew r = ar"
    using f by (simp add: update_domain_def Let_def)
  have 2: "domains (fst (update_domain s uid did ar t))
           = map (\<lambda>r. if d_id r = did \<and> d_user_id r = uid
                       then r\<lparr>auto_renew := ar, d_updated_at := t\<rparr> else r) (domains s)"
    using f by (simp add: update_domain_def Let_def)
  have 3: "update_file e' s' uid' i None None t' = (s', Inl (Failure 400 ''No fields to update''))"
    by (simp add: update_file_def)
  have 4: "update_profile s' uid' None None None = (s', Inl (Failure 400 ''No fields to update''))"
    by (simp add: update_profile_def bad_name_def)
  from 1 2 3 4 show ?thesis
    by (simp only: patch_file_omitted patch_user_omitted simp_thms)
qed

theorem update_domain_always_binds_autoRenew_witness:
  "auto_renew example_com = Some False
   \<and> snd (update_domain store_with_domain ''alice'' ''d1'' None 9)
       = Inr (example_com\<lparr>auto_renew := None, d_updated_at := 9\<rparr>)
   \<and> map auto_renew (domains (fst (update_domain store_with_domain ''alice'' ''d1'' None 9)))
       = [None]"
proof -
  have m: "example_com \<in> set (domains store_with_domain)"
    "d_id example_com = ''d1''" "d_user_id example_com = ''alice''"
    by (simp_all add: example_defs)
  have a: "auto_renew example_com = Some False" by (simp add: example_defs)
  note t = update_domain_always_binds_autoRenew [OF m, of None 9]
  have 2: "map auto_renew (domains (fst (update_domain store_with_domain ''alice'' ''d1'' None 9)))
       = [None]"
    by (simp add: t [THEN conjunct2, THEN conjunct1]) (simp add: example_defs)
  have 1: "snd (update_domain store_with_domain ''alice'' ''d1'' None 9)
       = Inr (example_com\<lparr>auto_renew := None, d_updated_at := 9\<rparr>)"
    by (simp add: update_domain_def Let_def example_defs)
  from a 1 2 show ?thesis by (intro conjI)
qed

section \<open>The file router: download and deletion\<close>

lemma read_photo_id: "uuid_in example_env photo_id = Some photo_id"
  by (simp add: example_env_def read_canonical_def canonical_uuid_def is_hex_def photo_id_def)

lemma read_photo_id_read_only: "uuid_in read_only_env photo_id = Some photo_id"
  by (simp add: read_only_env_def read_photo_id)

lemma read_42: "uuid_in example_env ''42'' = None"
  by (simp add: example_env_def read_canonical_def canonical_uuid_def)

lemma two_lines_refused:
  "checkInvalidHeaderChar (''attachment; filename='' @ [CHR 0x22] @ two_lines @ [CHR 0x22])"
  by (simp add: checkInvalidHeaderChar_def valid_header_char_def two_lines_def)

lemma photo_headers:
  "\<not> checkInvalidHeaderChar (''attachment; filename='' @ [CHR 0x22] @ ''photo.png'' @ [CHR 0x22])"
  "\<not> checkInvalidHeaderChar ''image/png''"
  by (simp_all add: checkInvalidHeaderChar_def valid_header_char_def)

text \<open>
  C4. The handler raises \<open>download_count\<close> before it sets the headers of the answer, and
  setting a header throws on a value it cannot carry. Alice renames her picture, never
  downloaded, to a name of two lines, which the update accepts. Her next download passes
  the three checks, raises the count from 0 to 1 and then fails at the
  \<^verbatim>\<open>Content-Disposition\<close> header: the answer is 500, and the failed download has counted.
\<close>

theorem failed_download_is_counted:
  "update_file example_env store_with_photo ''alice'' photo_id None (Some two_lines) 8
     = (store_renamed, Inr (photo\<lparr>original_name := two_lines, f_updated_at := 8\<rparr>))
   \<and> map download_count (files store_renamed) = [0]
   \<and> snd (download example_env store_renamed ''alice'' photo_id 9)
       = Inl (Failure 500 ''Failed to download file'')
   \<and> map download_count (files (fst (download example_env store_renamed ''alice'' photo_id 9)))
       = [1]"
proof -
  have 1: "update_file example_env store_with_photo ''alice'' photo_id None (Some two_lines) 8
     = (store_renamed, Inr (photo\<lparr>original_name := two_lines, f_updated_at := 8\<rparr>))"
    using read_photo_id
    by (simp add: update_file_def assign_varchar_def varchar_def patch_file_def Let_def
        store_renamed_def store_with_photo_def fresh_store_def photo_def two_lines_def)
  have 2: "map download_count (files store_renamed) = [0]"
    by (simp add: store_renamed_def photo_def)
  have d: "download example_env store_renamed ''alice'' photo_id 9
     = (store_renamed\<lparr>files := [photo\<lparr>original_name := two_lines, f_updated_at := 9,
                                        download_count := 1\<rparr>]\<rparr>,
        Inl (Failure 500 ''Failed to download file''))"
    using read_photo_id two_lines_refused
    by (simp add: download_def Let_def count_download_def store_renamed_def
        store_with_photo_def fresh_store_def photo_def)
  have 3: "snd (download example_env store_renamed ''alice'' photo_id 9)
       = Inl (Failure 500 ''Failed to download file'')"
    by (simp add: d)
  have 4: "map download_count (files (fst (download example_env store_renamed ''alice'' photo_id 9)))
       = [1]"
    by (simp add: d)
  from 1 2 3 4 show ?thesis by (intro conjI)
qed

lemma download_found:
  assumes "uuid_in e i = Some k" and "find (\<lambda>r. f_id r = k) (files s) = Some row"
  shows "download e s uid i t =
     (if f_user_id row \<noteq> uid \<and> \<not> is_public row
      then (s, Inl (Failure 403 ''Access denied''))
      else if file_path row \<notin> disk s
      then (s, Inl (Failure 404 ''File not found on disk''))
      else if filter (\<lambda>r. f_id r = k \<and> download_count r = 2147483647) (files s) \<noteq> []
      then (s, Inl (Failure 500 ''Failed to download file''))
      else if checkInvalidHeaderChar
                (''attachment; filename='' @ [CHR 0x22] @ original_name row @ [CHR 0x22])
              \<or> checkInvalidHeaderChar (mime_type row)
      then (s\<lparr>files := map (count_download k t) (files s)\<rparr>,
            Inl (Failure 500 ''Failed to download file''))
      else (s\<lparr>files := map (count_download k t) (files s)\<rparr>,
            Inr \<lparr>content_disposition =
                   ''attachment; filename='' @ [CHR 0x22] @ original_name row @ [CHR 0x22],
                 content_type = mime_type row,
                 content_length = file_size row,
                 streamed_path = file_path row\<rparr>))"
proof -
  from assms(2) obtain ys where "filter (\<lambda>r. f_id r = k) (files s) = row # ys"
    using find_Some_filter by fastforce
  then show ?thesis using assms(1) by (simp add: download_def Let_def)
qed

text \<open>
  What holds of a download on every store. An id that is not the text of a UUID ends in 500
  and an id without a row in 404; with a row, a caller who is neither its owner nor reading a
  public file gets 403, and a caller who may read gets 404 when the bytes are not on disk;
  each of these leaves the store as it was. A download that succeeds passed these checks and
  has raised the count of the rows of that id by exactly one, and the count of no other row.
  A failure that changed the store is the 500 of a header that threw after the count was
  raised.
\<close>

theorem download_checks_in_order:
  "(uuid_in e i = None
      \<longrightarrow> download e s uid i t = (s, Inl (Failure 500 ''Failed to download file'')))
   \<and> (\<forall>k. uuid_in e i = Some k \<longrightarrow>
         (find (\<lambda>r. f_id r = k) (files s) = None
            \<longrightarrow> download e s uid i t = (s, Inl (Failure 404 ''File not found'')))
       \<and> (\<forall>row. find (\<lambda>r. f_id r = k) (files s) = Some row \<longrightarrow>
             (f_user_id row \<noteq> uid \<and> \<not> is_public row
                \<longrightarrow> download e s uid i t = (s, Inl (Failure 403 ''Access denied'')))
           \<and> ((f_user_id row = uid \<or> is_public row) \<and> file_path row \<notin> disk s
                \<longrightarrow> download e s uid i t = (s, Inl (Failure 404 ''File not found on disk'')))
           \<and> (\<forall>ok. snd (download e s uid i t) = Inr ok \<longrightarrow>
                 (f_user_id row = uid \<or> is_public row) \<and> file_path row \<in> disk s
               \<and> streamed_path ok = file_path row
               \<and> fst (download e s uid i t) = s\<lparr>files := map (count_download k t) (files s)\<rparr>)
           \<and> (\<forall>f. snd (download e s uid i t) = Inl f \<and> fst (download e s uid i t) \<noteq> s \<longrightarrow>
                 f = Failure 500 ''Failed to download file''
               \<and> (checkInvalidHeaderChar
                     (''attachment; filename='' @ [CHR 0x22] @ original_name row @ [CHR 0x22])
                   \<or> checkInvalidHeaderChar (mime_type row))
               \<and> fst (download e s uid i t) = s\<lparr>files := map (count_download k t) (files s)\<rparr>))
       \<and> (\<forall>r. download_count (count_download k t r)
                = download_count r + (if f_id r = k then 1 else 0)))"
proof (intro conjI allI impI)
  assume "uuid_in e i = None"
  then show "download e s uid i t = (s, Inl (Failure 500 ''Failed to download file''))"
    by (simp add: download_def)
next
  fix k assume "uuid_in e i = Some k" and "find (\<lambda>r. f_id r = k) (files s) = None"
  then show "download e s uid i t = (s, Inl (Failure 404 ''File not found''))"
    by (simp add: download_def filter_Nil_find [symmetric])
next
  fix k row
  assume "uuid_in e i = Some k" and "find (\<lambda>r. f_id r = k) (files s) = Some row"
    and "f_user_id row \<noteq> uid \<and> \<not> is_public row"
  then show "download e s uid i t = (s, Inl (Failure 403 ''Access denied''))"
    by (simp add: download_found)
next
  fix k row
  assume "uuid_in e i = Some k" and "find (\<lambda>r. f_id r = k) (files s) = Some row"
    and "(f_user_id row = uid \<or> is_public row) \<and> file_path row \<notin> disk s"
  then show "download e s uid i t = (s, Inl (Failure 404 ''File not found on disk''))"
    by (auto simp: download_found)
next
  fix k row ok
  assume a: "uuid_in e i = Some k" "find (\<lambda>r. f_id r = k) (files s) = Some row"
    and b: "snd (download e s uid i t) = Inr ok"
  from b show "f_user_id row = uid \<or> is_public row"
    by (auto simp: download_found [OF a] split: if_splits)
  from b show "file_path row \<in> disk s"
    by (auto simp: download_found [OF a] split: if_splits)
  from b show "streamed_path ok = file_path row"
    by (auto simp: download_found [OF a] split: if_splits)
  from b show "fst (download e s uid i t) = s\<lparr>files := map (count_download k t) (files s)\<rparr>"
    by (auto simp: download_found [OF a] split: if_splits)
next
  fix k row f
  assume a: "uuid_in e i = Some k" "find (\<lambda>r. f_id r = k) (files s) = Some row"
    and b: "snd (download e s uid i t) = Inl f \<and> fst (download e s uid i t) \<noteq> s"
  from b show "f = Failure 500 ''Failed to download file''"
    by (auto simp: download_found [OF a] split: if_splits)
  from b show "checkInvalidHeaderChar
                 (''attachment; filename='' @ [CHR 0x22] @ original_name row @ [CHR 0x22])
               \<or> checkInvalidHeaderChar (mime_type row)"
    by (auto simp: download_found [OF a] split: if_splits)
  from b show "fst (download e s uid i t) = s\<lparr>files := map (count_download k t) (files s)\<rparr>"
    by (auto simp: download_found [OF a] split: if_splits)
next
  fix k r
  show "download_count (count_download k t r) = download_count r + (if f_id r = k then 1 else 0)"
    by (simp add: count_download_def)
qed


theorem download_checks_in_order_witness:
  "download example_env store_with_photo ''alice'' ''42'' 9
     = (store_with_photo, Inl (Failure 500 ''Failed to download file''))
   \<and> download example_env fresh_store ''alice'' photo_id 9
     = (fresh_store, Inl (Failure 404 ''File not found''))
   \<and> download example_env store_with_photo ''bob'' photo_id 9
     = (store_with_photo, Inl (Failure 403 ''Access denied''))
   \<and> download example_env store_photo_lost ''alice'' photo_id 9
     = (store_photo_lost, Inl (Failure 404 ''File not found on disk''))
   \<and> snd (download example_env store_with_photo ''alice'' photo_id 9)
     = Inr \<lparr>content_disposition = ''attachment; filename='' @ [CHR 0x22] @ ''photo.png'' @ [CHR 0x22],
            content_type = ''image/png'', content_length = 2048,
            streamed_path = ''uploads/alice/file-7-8.png''\<rparr>
   \<and> map download_count (files (fst (download example_env store_with_photo ''alice'' photo_id 9)))
     = [1]"
proof -
  note t = download_checks_in_order [where e = example_env and t = 9]
  have a: "find (\<lambda>r. f_id r = photo_id) (files store_with_photo) = Some photo"
    and b: "find (\<lambda>r. f_id r = photo_id) (files store_photo_lost) = Some photo"
    and c: "find (\<lambda>r. f_id r = photo_id) (files fresh_store) = None"
    by (simp_all add: store_with_photo_def store_photo_lost_def fresh_store_def photo_def)
  have 1: "download example_env store_with_photo ''alice'' ''42'' 9
     = (store_with_photo, Inl (Failure 500 ''Failed to download file''))"
    using t [where i = "''42''", THEN conjunct1, rule_format, OF read_42] .
  have 2: "download example_env fresh_store ''alice'' photo_id 9
     = (fresh_store, Inl (Failure 404 ''File not found''))"
    using t [where i = photo_id, THEN conjunct2, rule_format, OF read_photo_id,
        THEN conjunct1, rule_format, OF c] .
  have n: "f_user_id photo \<noteq> ''bob'' \<and> \<not> is_public photo"
    by (simp add: photo_def)
  have 3: "download example_env store_with_photo ''bob'' photo_id 9
     = (store_with_photo, Inl (Failure 403 ''Access denied''))"
    using t [where i = photo_id, THEN conjunct2, rule_format, OF read_photo_id,
        THEN conjunct2, THEN conjunct1, rule_format, OF a, THEN conjunct1, rule_format, OF n] .
  have l: "(f_user_id photo = ''alice'' \<or> is_public photo) \<and> file_path photo \<notin> disk store_photo_lost"
    by (simp add: photo_def store_photo_lost_def fresh_store_def)
  have 4: "download example_env store_photo_lost ''alice'' photo_id 9
     = (store_photo_lost, Inl (Failure 404 ''File not found on disk''))"
    using t [where i = photo_id, THEN conjunct2, rule_format, OF read_photo_id,
        THEN conjunct2, THEN conjunct1, rule_format, OF b, THEN conjunct2, THEN conjunct1,
        rule_format, OF l] .
  have 5: "snd (download example_env store_with_photo ''alice'' photo_id 9)
     = Inr \<lparr>content_disposition = ''attachment; filename='' @ [CHR 0x22] @ ''photo.png'' @ [CHR 0x22],
            content_type = ''image/png'', content_length = 2048,
            streamed_path = ''uploads/alice/file-7-8.png''\<rparr>"
    using read_photo_id photo_headers
    by (simp add: download_def Let_def store_with_photo_def fresh_store_def photo_def)
  have "fst (download example_env store_with_photo ''alice'' photo_id 9)
     = store_with_photo\<lparr>files := map (count_download photo_id 9) (files store_with_photo)\<rparr>"
    using t [where i = photo_id, THEN conjunct2, rule_format, OF read_photo_id,
        THEN conjunct2, THEN conjunct1, rule_format, OF a, THEN conjunct2, THEN conjunct2,
        THEN conjunct1, rule_format, OF 5]
    by (rule conjunct2 [THEN conjunct2, THEN conjunct2])
  then have 6: "map download_count
       (files (fst (download example_env store_with_photo ''alice'' photo_id 9))) = [1]"
    by (simp add: store_with_photo_def count_download_def photo_def)
  from 1 2 3 4 5 6 show ?thesis by (intro conjI)
qed

text \<open>
  C8. On an id that is the text of a UUID, a deletion answers 404 exactly when the caller
  owns no row of that id. When the caller owns one, the request succeeds and the row is
  gone, whatever the unlink did: where the bytes are there and the file system lets them
  go, they are removed; where they are not there, or are there and the file system refuses,
  the unlink fails, the disk stays as it was, and the row is deleted all the same. On an
  id that is not the text of a UUID the answer is 500 and nothing changes.
\<close>

theorem delete_file_survives_unlink_failure:
  "(uuid_in e i = None
      \<longrightarrow> delete_file e s uid i = (s, Inl (Failure 500 ''Failed to delete file'')))
   \<and> (\<forall>k. uuid_in e i = Some k \<longrightarrow>
         (find (\<lambda>r. f_id r = k \<and> f_user_id r = uid) (files s) = None
            \<longrightarrow> delete_file e s uid i = (s, Inl (Failure 404 ''File not found'')))
       \<and> (\<forall>row. find (\<lambda>r. f_id r = k \<and> f_user_id r = uid) (files s) = Some row \<longrightarrow>
             snd (delete_file e s uid i) = Inr ()
           \<and> files (fst (delete_file e s uid i))
               = filter (\<lambda>r. \<not> (f_id r = k \<and> f_user_id r = uid)) (files s)
           \<and> row \<notin> set (files (fst (delete_file e s uid i)))
           \<and> (file_path row \<in> disk s \<and> \<not> unlink_refused e (file_path row) \<longrightarrow>
                 fs_unlink e (disk s) (file_path row) = Some (disk s - {file_path row})
               \<and> disk (fst (delete_file e s uid i)) = disk s - {file_path row})
           \<and> (file_path row \<notin> disk s \<or> unlink_refused e (file_path row) \<longrightarrow>
                 fs_unlink e (disk s) (file_path row) = None
               \<and> disk (fst (delete_file e s uid i)) = disk s)))"
proof (intro conjI allI impI)
  assume "uuid_in e i = None"
  then show "delete_file e s uid i = (s, Inl (Failure 500 ''Failed to delete file''))"
    by (simp add: delete_file_def)
next
  fix k
  assume "uuid_in e i = Some k"
    and "find (\<lambda>r. f_id r = k \<and> f_user_id r = uid) (files s) = None"
  then show "delete_file e s uid i = (s, Inl (Failure 404 ''File not found''))"
    by (simp add: delete_file_def filter_Nil_find [symmetric])
next
  fix k row
  assume u: "uuid_in e i = Some k"
    and a: "find (\<lambda>r. f_id r = k \<and> f_user_id r = uid) (files s) = Some row"
  from a obtain ys where f: "filter (\<lambda>r. f_id r = k \<and> f_user_id r = uid) (files s) = row # ys"
    using find_Some_filter by fastforce
  then have "row \<in> set (filter (\<lambda>r. f_id r = k \<and> f_user_id r = uid) (files s))" by simp
  then have h: "f_id row = k \<and> f_user_id row = uid" by simp
  show "snd (delete_file e s uid i) = Inr ()"
    using u f by (simp add: delete_file_def Let_def)
  show fl: "files (fst (delete_file e s uid i))
          = filter (\<lambda>r. \<not> (f_id r = k \<and> f_user_id r = uid)) (files s)"
    using u f by (simp add: delete_file_def Let_def)
  show "row \<notin> set (files (fst (delete_file e s uid i)))"
    using h by (simp add: fl)
  show "fs_unlink e (disk s) (file_path row) = Some (disk s - {file_path row})"
    if "file_path row \<in> disk s \<and> \<not> unlink_refused e (file_path row)"
    using that by (simp add: fs_unlink_def)
  show "disk (fst (delete_file e s uid i)) = disk s - {file_path row}"
    if "file_path row \<in> disk s \<and> \<not> unlink_refused e (file_path row)"
    using u f that by (simp add: delete_file_def Let_def fs_unlink_def)
  show "fs_unlink e (disk s) (file_path row) = None"
    if "file_path row \<notin> disk s \<or> unlink_refused e (file_path row)"
    using that by (auto simp: fs_unlink_def)
  show "disk (fst (delete_file e s uid i)) = disk s"
    if "file_path row \<notin> disk s \<or> unlink_refused e (file_path row)"
    using u f that by (auto simp: delete_file_def Let_def fs_unlink_def)
qed

theorem delete_file_survives_unlink_failure_witness:
  "file_path photo \<in> disk store_with_photo
   \<and> fs_unlink read_only_env (disk store_with_photo) (file_path photo) = None
   \<and> delete_file read_only_env store_with_photo ''alice'' photo_id
       = (store_with_photo\<lparr>files := []\<rparr>, Inr ())
   \<and> file_path photo \<notin> disk store_photo_lost
   \<and> fs_unlink example_env (disk store_photo_lost) (file_path photo) = None
   \<and> delete_file example_env store_photo_lost ''alice'' photo_id = (fresh_store, Inr ())
   \<and> delete_file example_env store_with_photo ''alice'' photo_id = (fresh_store, Inr ())
   \<and> delete_file example_env store_with_photo ''bob'' photo_id
       = (store_with_photo, Inl (Failure 404 ''File not found''))"
proof -
  note t = delete_file_survives_unlink_failure [where i = photo_id]
  have a: "find (\<lambda>r. f_id r = photo_id \<and> f_user_id r = ''alice'') (files store_with_photo)
             = Some photo"
    and b: "find (\<lambda>r. f_id r = photo_id \<and> f_user_id r = ''alice'') (files store_photo_lost)
             = Some photo"
    and c: "find (\<lambda>r. f_id r = photo_id \<and> f_user_id r = ''bob'') (files store_with_photo) = None"
    by (simp_all add: store_with_photo_def store_photo_lost_def fresh_store_def photo_def)
  have p1: "file_path photo \<in> disk store_with_photo"
    and p2: "file_path photo \<notin> disk store_photo_lost"
    by (simp_all add: store_with_photo_def store_photo_lost_def fresh_store_def photo_def)
  have r: "file_path photo \<notin> disk store_with_photo \<or> unlink_refused read_only_env (file_path photo)"
    by (simp add: read_only_env_def)
  have l: "file_path photo \<notin> disk store_photo_lost \<or> unlink_refused example_env (file_path photo)"
    using p2 by simp
  have g: "file_path photo \<in> disk store_with_photo \<and> \<not> unlink_refused example_env (file_path photo)"
    using p1 by (simp add: example_env_def)
  note t1 = t [where e = read_only_env and s = store_with_photo and uid = "''alice''",
      THEN conjunct2, rule_format, OF read_photo_id_read_only, THEN conjunct2, rule_format, OF a]
  note t2 = t [where e = example_env and s = store_photo_lost and uid = "''alice''",
      THEN conjunct2, rule_format, OF read_photo_id, THEN conjunct2, rule_format, OF b]
  note t3 = t [where e = example_env and s = store_with_photo and uid = "''alice''",
      THEN conjunct2, rule_format, OF read_photo_id, THEN conjunct2, rule_format, OF a]
  note u1 = t1 [THEN conjunct2, THEN conjunct2, THEN conjunct2, THEN conjunct2, rule_format, OF r]
  note u2 = t2 [THEN conjunct2, THEN conjunct2, THEN conjunct2, THEN conjunct2, rule_format, OF l]
  note u3 = t3 [THEN conjunct2, THEN conjunct2, THEN conjunct2, THEN conjunct1, rule_format, OF g]
  have 2: "fs_unlink read_only_env (disk store_with_photo) (file_path photo) = None"
    using u1 by (rule conjunct1)
  have 3: "delete_file read_only_env store_with_photo ''alice'' photo_id
       = (store_with_photo\<lparr>files := []\<rparr>, Inr ())"
  proof (rule prod_eqI)
    have "files (fst (delete_file read_only_env store_with_photo ''alice'' photo_id)) = []"
      using t1 [THEN conjunct2, THEN conjunct1]
      by (simp add: store_with_photo_def fresh_store_def photo_def)
    moreover have "disk (fst (delete_file read_only_env store_with_photo ''alice'' photo_id))
        = disk store_with_photo"
      using u1 by (rule conjunct2)
    moreover have "users (fst (delete_file read_only_env store_with_photo ''alice'' photo_id))
        = users store_with_photo"
      "domains (fst (delete_file read_only_env store_with_photo ''alice'' photo_id))
        = domains store_with_photo"
      using read_photo_id_read_only a
      by (simp_all add: delete_file_def Let_def find_Some_filter filter_Nil_find split: list.splits)
    ultimately show "fst (delete_file read_only_env store_with_photo ''alice'' photo_id)
        = fst (store_with_photo\<lparr>files := []\<rparr>, Inr ())"
      by simp
    show "snd (delete_file read_only_env store_with_photo ''alice'' photo_id)
        = snd (store_with_photo\<lparr>files := []\<rparr>, Inr ())"
      using t1 [THEN conjunct1] by simp
  qed
  have 5: "fs_unlink example_env (disk store_photo_lost) (file_path photo) = None"
    using u2 by (rule conjunct1)
  have 6: "delete_file example_env store_photo_lost ''alice'' photo_id = (fresh_store, Inr ())"
    using read_photo_id t2 [THEN conjunct1]
    by (simp add: delete_file_def Let_def fs_unlink_def store_photo_lost_def fresh_store_def
        photo_def)
  have 7: "delete_file example_env store_with_photo ''alice'' photo_id = (fresh_store, Inr ())"
    using read_photo_id u3
    by (simp add: delete_file_def Let_def fs_unlink_def store_with_photo_def fresh_store_def
        photo_def example_env_def)
  have 8: "delete_file example_env store_with_photo ''bob'' photo_id
       = (store_with_photo, Inl (Failure 404 ''File not found''))"
    using t [where e = example_env and s = store_with_photo and uid = "''bob''",
        THEN conjunct2, rule_format, OF read_photo_id, THEN conjunct1, rule_format, OF c] .
  from p1 2 3 p2 5 6 7 8 show ?thesis by (intro conjI)
qed

text \<open>
  The claim as worded fails where the id is not the text of a UUID: no row matches, and the
  deletion fails with 500, not with 404.
\<close>

theorem delete_file_malformed_id_counterexample:
  "filter (\<lambda>r. f_id r = ''42'') (files store_with_photo) = []
   \<and> delete_file example_env store_with_photo ''alice'' ''42''
       = (store_with_photo, Inl (Failure 500 ''Failed to delete file''))"
  using read_42
  by (simp add: delete_file_def store_with_photo_def fresh_store_def photo_def photo_id_def)

section \<open>The storage quota\<close>

lemma js_add_number: "js_add (decode AsNumber a) (JNum (int b)) = JNum (int (a + b))"
  by (simp add: js_add_def decode_def)

lemma js_add_text:
  "js_add (decode AsString a) (JNum (int b)) = JStr (dec_digits a @ dec_digits b)"
  by (simp add: js_add_def decode_def number_to_string_def)

lemma js_gt_number_decode: "js_gt (JNum (int x)) (decode d q) = (q < x)"
  by (cases d) (simp_all add: js_gt_def js_lt_def decode_def string_to_number_dec_digits)

text \<open>
  With a driver that hands the sum over as a number, the comparison of the handler is the
  one the specification states: an upload beyond the quota is refused with
  \<^verbatim>\<open>Storage quota exceeded\<close>, the written bytes are unlinked and no row is inserted
  (where the file system refuses the unlink, the answer is 500 and the bytes stay); an
  upload within the quota, equality included, inserts the row when the statement goes
  through.
\<close>

theorem upload_quota_with_numeric_sum:
  assumes "numeric (drv e) = AsNumber"
    and "find (\<lambda>u. u_id u = uid) (users s) = Some user"
  shows "(storage_quota user < storage_used s uid + rf_size f
            \<and> \<not> unlink_refused e (rf_path f) \<longrightarrow>
            upload_request e s uid f isPublic i t
              = (s\<lparr>disk := disk s - {rf_path f}\<rparr>, Inl (Failure 400 ''Storage quota exceeded'')))
       \<and> (storage_quota user < storage_used s uid + rf_size f
            \<and> unlink_refused e (rf_path f) \<longrightarrow>
            upload_request e s uid f isPublic i t
              = (s\<lparr>disk := insert (rf_path f) (disk s)\<rparr>,
                 Inl (Failure 500 ''Failed to upload file'')))
       \<and> (storage_used s uid + rf_size f \<le> storage_quota user \<longrightarrow>
            (\<forall>s1. insert_file (multer_stored s f)
                     (new_file_row uid f (case isPublic of None \<Rightarrow> False | Some v \<Rightarrow> v) i t)
                   = Some s1 \<longrightarrow>
              upload_request e s uid f isPublic i t
                = (s1, Inr (new_file_row uid f (case isPublic of None \<Rightarrow> False | Some v \<Rightarrow> v) i t))
              \<and> files s1 = files s
                   @ [new_file_row uid f (case isPublic of None \<Rightarrow> False | Some v \<Rightarrow> v) i t]))"
proof -
  have u: "users (multer_stored s f) = users s" "files (multer_stored s f) = files s"
    "disk (multer_stored s f) = insert (rf_path f) (disk s)"
    by (simp_all add: multer_stored_def)
  have su: "storage_used (multer_stored s f) uid = storage_used s uid"
    by (simp add: storage_used_def u)
  have g: "js_gt (js_add (decode (numeric (drv e)) (storage_used s uid)) (JNum (int (rf_size f))))
             (decode (int8 (drv e)) (storage_quota user))
           = (storage_quota user < storage_used s uid + rf_size f)"
    by (simp only: assms(1) js_add_number js_gt_number_decode)
  show ?thesis
  proof (intro conjI impI allI)
    assume "storage_quota user < storage_used s uid + rf_size f
            \<and> \<not> unlink_refused e (rf_path f)"
    then show "upload_request e s uid f isPublic i t
              = (s\<lparr>disk := disk s - {rf_path f}\<rparr>, Inl (Failure 400 ''Storage quota exceeded''))"
      using assms(2) g
      by (simp add: upload_request_def upload_def u su Let_def fs_unlink_def)
        (simp add: multer_stored_def)
  next
    assume "storage_quota user < storage_used s uid + rf_size f
            \<and> unlink_refused e (rf_path f)"
    then show "upload_request e s uid f isPublic i t
              = (s\<lparr>disk := insert (rf_path f) (disk s)\<rparr>,
                 Inl (Failure 500 ''Failed to upload file''))"
      using assms(2) g
      by (simp add: upload_request_def upload_def u su Let_def fs_unlink_def cleanup_def)
        (simp add: multer_stored_def)
  next
    fix s1
    assume a: "storage_used s uid + rf_size f \<le> storage_quota user"
      and b: "insert_file (multer_stored s f)
                (new_file_row uid f (case isPublic of None \<Rightarrow> False | Some v \<Rightarrow> v) i t) = Some s1"
    from a b show "upload_request e s uid f isPublic i t
                = (s1, Inr (new_file_row uid f (case isPublic of None \<Rightarrow> False | Some v \<Rightarrow> v) i t))"
      using assms(2) g by (simp add: upload_request_def upload_def u su Let_def)
    from b show "files s1 = files s
                   @ [new_file_row uid f (case isPublic of None \<Rightarrow> False | Some v \<Rightarrow> v) i t]"
      by (auto simp: insert_file_def u split: if_splits)
  qed
qed

theorem upload_quota_with_numeric_sum_witness:
  "upload_request (example_env\<lparr>drv := numbers_only\<rparr>) fresh_store ''alice'' two_gib None ''f2'' 9
     = (fresh_store, Inl (Failure 400 ''Storage quota exceeded''))
   \<and> snd (upload_request (example_env\<lparr>drv := numbers_only\<rparr>) store_with_report ''alice''
            one_byte None ''f2'' 9)
     = Inr (new_file_row ''alice'' one_byte False ''f2'' 9)"
proof -
  have n: "numeric (drv (example_env\<lparr>drv := numbers_only\<rparr>)) = AsNumber"
    by (simp add: numbers_only_def)
  have u1: "find (\<lambda>u. u_id u = ''alice'') (users fresh_store) = Some alice"
    and u2: "find (\<lambda>u. u_id u = ''alice'') (users store_with_report) = Some alice"
    by (simp_all add: example_defs)
  have q1: "storage_quota alice < storage_used fresh_store ''alice'' + rf_size two_gib
      \<and> \<not> unlink_refused (example_env\<lparr>drv := numbers_only\<rparr>) (rf_path two_gib)"
    by (simp add: example_defs storage_used_def)
  have q2: "storage_used store_with_report ''alice'' + rf_size one_byte \<le> storage_quota alice"
    by (simp add: example_defs storage_used_def)
  have d: "fresh_store\<lparr>disk := disk fresh_store - {rf_path two_gib}\<rparr> = fresh_store"
    by (simp add: example_defs)
  have ins: "insert_file (multer_stored store_with_report one_byte)
               (new_file_row ''alice'' one_byte (case None of None \<Rightarrow> False | Some v \<Rightarrow> v) ''f2'' 9)
             = Some (multer_stored store_with_report one_byte
                      \<lparr>files := files (multer_stored store_with_report one_byte)
                         @ [new_file_row ''alice'' one_byte False ''f2'' 9]\<rparr>)"
    by (simp add: insert_file_def multer_stored_def new_file_row_def example_defs)
  have 1: "upload_request (example_env\<lparr>drv := numbers_only\<rparr>) fresh_store ''alice'' two_gib None ''f2'' 9
     = (fresh_store, Inl (Failure 400 ''Storage quota exceeded''))"
    using upload_quota_with_numeric_sum [OF n u1, THEN conjunct1, rule_format, OF q1,
        of None "''f2''" 9] d
    by simp
  have 2: "snd (upload_request (example_env\<lparr>drv := numbers_only\<rparr>) store_with_report ''alice''
            one_byte None ''f2'' 9)
     = Inr (new_file_row ''alice'' one_byte False ''f2'' 9)"
    using upload_quota_with_numeric_sum [OF n u2, THEN conjunct2, THEN conjunct2, rule_format, OF q2 ins,
        THEN conjunct1]
    by simp
  from 1 2 show ?thesis by (intro conjI)
qed

text \<open>
  C1. With the driver as shipped the sum is text, \<^verbatim>\<open>current_storage + req.file.size\<close>
  is the concatenation of two decimal texts, and \<^verbatim>\<open>>\<close> compares it with the text of the
  quota character by character. Alice, with 1 GiB of quota: holding nothing, her part of
  2 GiB is accepted (\<^verbatim>\<open>02147483648\<close> sorts before \<^verbatim>\<open>1073741824\<close>); holding the
  50 MiB of one accepted upload, her part of one byte is refused as over quota
  (\<^verbatim>\<open>524288001\<close> sorts after it), and the store is as before the request.
\<close>

theorem upload_quota_check_compares_text:
  "storage_quota alice = 1073741824
   \<and> storage_used fresh_store ''alice'' = 0
   \<and> fst (upload_request example_env fresh_store ''alice'' report_part None ''f1'' 1)
       = store_with_report
   \<and> snd (upload_request example_env fresh_store ''alice'' two_gib None ''f2'' 9)
       = Inr (new_file_row ''alice'' two_gib False ''f2'' 9)
   \<and> storage_used (fst (upload_request example_env fresh_store ''alice'' two_gib None ''f2'' 9))
        ''alice'' = 2147483648
   \<and> storage_used store_with_report ''alice'' = 52428800
   \<and> upload_request example_env store_with_report ''alice'' one_byte None ''f2'' 9
       = (store_with_report, Inl (Failure 400 ''Storage quota exceeded''))"
  by (simp add: upload_request_def upload_def multer_stored_def storage_used_def
      insert_file_def new_file_row_def fs_unlink_def example_defs js_defs Let_def)

subsection \<open>The quota over a sequence of requests\<close>

lemma upload_effect:
  assumes "numeric (drv e) = AsNumber"
  shows "users (fst (upload e s uid (Some f) isPublic i t)) = users s
       \<and> (files (fst (upload e s uid (Some f) isPublic i t)) = files s
          \<or> (\<exists>user. find (\<lambda>u. u_id u = uid) (users s) = Some user
                \<and> storage_used s uid + rf_size f \<le> storage_quota user
                \<and> files (fst (upload e s uid (Some f) isPublic i t))
                    = files s @ [new_file_row uid f
                                  (case isPublic of None \<Rightarrow> False | Some v \<Rightarrow> v) i t]))"
proof (cases "find (\<lambda>u. u_id u = uid) (users s)")
  case None
  then show ?thesis
    by (simp add: upload_def cleanup_def split: option.splits)
next
  case (Some user)
  have g: "js_gt (js_add (decode (numeric (drv e)) (storage_used s uid)) (JNum (int (rf_size f))))
             (decode (int8 (drv e)) (storage_quota user))
           = (storage_quota user < storage_used s uid + rf_size f)"
    by (simp only: assms js_add_number js_gt_number_decode)
  show ?thesis
  proof (cases "storage_quota user < storage_used s uid + rf_size f")
    case True
    with Some g show ?thesis
      by (simp add: upload_def Let_def cleanup_def split: option.splits)
  next
    case False
    with Some g show ?thesis
      by (auto simp: upload_def Let_def cleanup_def insert_file_def
          split: option.splits if_splits)
  qed
qed

lemma upload_request_effect:
  assumes "numeric (drv e) = AsNumber"
  shows "users (fst (upload_request e s uid f isPublic i t)) = users s
       \<and> (files (fst (upload_request e s uid f isPublic i t)) = files s
          \<or> (\<exists>user. find (\<lambda>u. u_id u = uid) (users s) = Some user
                \<and> storage_used s uid + rf_size f \<le> storage_quota user
                \<and> files (fst (upload_request e s uid f isPublic i t))
                    = files s @ [new_file_row uid f
                                  (case isPublic of None \<Rightarrow> False | Some v \<Rightarrow> v) i t]))"
proof -
  have "users (multer_stored s f) = users s" "files (multer_stored s f) = files s"
    "storage_used (multer_stored s f) uid = storage_used s uid"
    by (simp_all add: multer_stored_def storage_used_def)
  with upload_effect [OF assms, of "multer_stored s f" uid f isPublic i t]
  show ?thesis by (simp add: upload_request_def)
qed

lemma used_map:
  assumes "\<And>r. file_size (g r) = file_size r" and "\<And>r. f_user_id (g r) = f_user_id r"
  shows "sum_list (map file_size (filter (\<lambda>r. f_user_id r = uid) (map g rs)))
           = sum_list (map file_size (filter (\<lambda>r. f_user_id r = uid) rs))"
  by (induction rs) (simp_all add: assms)

lemma used_filter_both:
  "sum_list (map file_size (filter (\<lambda>r. P r \<and> f_user_id r = uid) rs))
     \<le> sum_list (map file_size (filter (\<lambda>r. f_user_id r = uid) rs))"
  by (induction rs) simp_all

lemma patch_file_keeps: "file_size (patch_file p n t r) = file_size r"
  "f_user_id (patch_file p n t r) = f_user_id r"
  by (simp_all add: patch_file_def Let_def split: option.splits)

lemma count_download_keeps: "file_size (count_download i t r) = file_size r"
  "f_user_id (count_download i t r) = f_user_id r"
  by (simp_all add: count_download_def)

lemma used_patched:
  "sum_list (map file_size (filter (\<lambda>r. f_user_id r = uid)
       (map (\<lambda>r. if P r then patch_file p n t r else r) rs)))
     = sum_list (map file_size (filter (\<lambda>r. f_user_id r = uid) rs))"
  by (rule used_map) (simp_all add: patch_file_keeps)

lemma used_counted:
  "sum_list (map file_size (filter (\<lambda>r. f_user_id r = uid) (map (count_download k t) rs)))
     = sum_list (map file_size (filter (\<lambda>r. f_user_id r = uid) rs))"
  by (rule used_map) (simp_all add: count_download_keeps)

lemma download_effect:
  "users (fst (download e s who i t)) = users s
   \<and> storage_used (fst (download e s who i t)) uid = storage_used s uid"
  by (simp add: download_def Let_def storage_used_def used_counted
      split: option.splits list.splits)

lemma update_file_effect:
  "users (fst (update_file e s who i p n t)) = users s
   \<and> storage_used (fst (update_file e s who i p n t)) uid = storage_used s uid"
  by (simp add: update_file_def Let_def storage_used_def used_patched
      split: option.splits list.splits)

lemma delete_file_effect:
  "users (fst (delete_file e s who i)) = users s
   \<and> storage_used (fst (delete_file e s who i)) uid \<le> storage_used s uid"
  by (simp add: delete_file_def Let_def storage_used_def used_filter_both
      split: option.splits list.splits)

text \<open>
  With a driver that hands the sum over as a number, no sequence of uploads, downloads,
  updates and deletions brings the bytes of a user's file rows above the user's quota.
\<close>

theorem storage_within_quota_with_numeric_sum:
  assumes "numeric (drv e) = AsNumber" and "files_reachable e s"
    and "find (\<lambda>u. u_id u = uid) (users s) = Some user"
  shows "storage_used s uid \<le> storage_quota user"
proof -
  have "\<forall>uid user. find (\<lambda>u. u_id u = uid) (users s) = Some user
          \<longrightarrow> storage_used s uid \<le> storage_quota user"
    using assms(2)
  proof (induction rule: files_reachable.induct)
    case (no_files s)
    then show ?case by (simp add: storage_used_def)
  next
    case (by_upload s who f isPublic i t)
    from upload_request_effect [OF assms(1), of s who f isPublic i t]
    have u: "users (fst (upload_request e s who f isPublic i t)) = users s"
      and f: "files (fst (upload_request e s who f isPublic i t)) = files s
          \<or> (\<exists>user. find (\<lambda>u. u_id u = who) (users s) = Some user
                \<and> storage_used s who + rf_size f \<le> storage_quota user
                \<and> files (fst (upload_request e s who f isPublic i t))
                    = files s @ [new_file_row who f
                                  (case isPublic of None \<Rightarrow> False | Some v \<Rightarrow> v) i t])"
      by simp_all
    from f show ?case
    proof
      assume "files (fst (upload_request e s who f isPublic i t)) = files s"
      with u by_upload.IH show ?thesis by (simp add: storage_used_def)
    next
      assume "\<exists>user. find (\<lambda>u. u_id u = who) (users s) = Some user
                \<and> storage_used s who + rf_size f \<le> storage_quota user
                \<and> files (fst (upload_request e s who f isPublic i t))
                    = files s @ [new_file_row who f
                                  (case isPublic of None \<Rightarrow> False | Some v \<Rightarrow> v) i t]"
      then obtain owner where o: "find (\<lambda>u. u_id u = who) (users s) = Some owner"
        "storage_used s who + rf_size f \<le> storage_quota owner"
        "files (fst (upload_request e s who f isPublic i t))
           = files s @ [new_file_row who f (case isPublic of None \<Rightarrow> False | Some v \<Rightarrow> v) i t]"
        by blast
      show ?thesis
      proof (intro allI impI)
        fix uid user
        assume a: "find (\<lambda>u. u_id u = uid) (users (fst (upload_request e s who f isPublic i t)))
                     = Some user"
        with u have b: "find (\<lambda>u. u_id u = uid) (users s) = Some user" by simp
        with by_upload.IH have c: "storage_used s uid \<le> storage_quota user" by simp
        show "storage_used (fst (upload_request e s who f isPublic i t)) uid \<le> storage_quota user"
        proof (cases "uid = who")
          case True
          with o(1) b have "owner = user" by simp
          with o(2,3) True show ?thesis
            by (simp add: storage_used_def new_file_row_def)
        next
          case False
          with o(3) c show ?thesis
            by (simp add: storage_used_def new_file_row_def)
        qed
      qed
    qed
  next
    case (by_download s who i t)
    from download_effect [of e s who i t] by_download.IH show ?case
      by simp
  next
    case (by_update_file s who i p n t)
    from update_file_effect [of e s who i p n t] by_update_file.IH show ?case
      by simp
  next
    case (by_delete_file s who i)
    show ?case
    proof (intro allI impI)
      fix uid user
      assume "find (\<lambda>u. u_id u = uid) (users (fst (delete_file e s who i))) = Some user"
      with delete_file_effect [of e s who i] by_delete_file.IH
      have q: "storage_used s uid \<le> storage_quota user" by simp
      have "storage_used (fst (delete_file e s who i)) uid \<le> storage_used s uid"
        using delete_file_effect [of e s who i uid] by simp
      with q show "storage_used (fst (delete_file e s who i)) uid \<le> storage_quota user"
        by (rule order_trans [rotated])
    qed
  qed
  with assms(3) show ?thesis by simp
qed

theorem storage_within_quota_with_numeric_sum_witness:
  "files_reachable (example_env\<lparr>drv := numbers_only\<rparr>)
     (fst (upload_request (example_env\<lparr>drv := numbers_only\<rparr>) store_with_report ''alice''
             one_byte None ''f2'' 9))
   \<and> storage_used (fst (upload_request (example_env\<lparr>drv := numbers_only\<rparr>) store_with_report
                          ''alice'' one_byte None ''f2'' 9)) ''alice'' = 52428801
   \<and> (52428801 :: nat) \<le> storage_quota alice"
proof -
  let ?e = "example_env\<lparr>drv := numbers_only\<rparr>"
  let ?s = "fst (upload_request ?e store_with_report ''alice'' one_byte None ''f2'' 9)"
  have n: "numeric (drv ?e) = AsNumber" by (simp add: numbers_only_def)
  have "files_reachable ?e fresh_store"
    by (rule files_reachable.no_files) (simp add: fresh_store_def)
  from files_reachable.by_upload [OF this, of "''alice''" report_part None "''f1''" 1]
  have "files_reachable ?e store_with_report"
    by (simp add: upload_request_def upload_def multer_stored_def storage_used_def
        insert_file_def new_file_row_def example_defs js_defs example_env_def Let_def)
  then have r: "files_reachable ?e ?s" by (rule files_reachable.by_upload)
  have u: "find (\<lambda>u. u_id u = ''alice'') (users ?s) = Some alice"
    by (simp add: upload_request_def upload_def multer_stored_def storage_used_def
        insert_file_def new_file_row_def example_defs js_defs Let_def)
  have v: "storage_used ?s ''alice'' = 52428801"
    by (simp add: upload_request_def upload_def multer_stored_def storage_used_def
        insert_file_def new_file_row_def example_defs js_defs Let_def)
  from storage_within_quota_with_numeric_sum [OF n r u] v
  have "(52428801 :: nat) \<le> storage_quota alice" by simp
  with r v show ?thesis by (intro conjI)
qed

section \<open>The monitor router: traffic sources\<close>

lemma startsWith_iff: "startsWith s p \<longleftrightarrow> (\<exists>b. s = p @ b)"
proof
  assume "startsWith s p"
  then have "s = p @ drop (length p) s"
    by (metis append_take_drop_id startsWith_def)
  then show "\<exists>b. s = p @ b" ..
next
  assume "\<exists>b. s = p @ b"
  then show "startsWith s p" by (auto simp: startsWith_def)
qed

lemma like_infix_iff: "like_infix s p \<longleftrightarrow> (\<exists>a b. s = a @ p @ b)"
proof (induction s)
  case Nil
  then show ?case by auto
next
  case (Cons c cs)
  show ?case
  proof
    assume "like_infix (c # cs) p"
    then consider "startsWith (c # cs) p" | "like_infix cs p" by auto
    then show "\<exists>a b. c # cs = a @ p @ b"
    proof cases
      case 1
      then obtain b where "c # cs = p @ b" by (auto simp: startsWith_iff)
      then have "c # cs = [] @ p @ b" by simp
      then show ?thesis by blast
    next
      case 2
      with Cons.IH obtain a b where "cs = a @ p @ b" by auto
      then have "c # cs = (c # a) @ p @ b" by simp
      then show ?thesis by blast
    qed
  next
    assume "\<exists>a b. c # cs = a @ p @ b"
    then obtain a b where ab: "c # cs = a @ p @ b" by auto
    show "like_infix (c # cs) p"
    proof (cases a)
      case Nil
      with ab have "startsWith (c # cs) p" by (auto simp: startsWith_iff)
      then show ?thesis by simp
    next
      case (Cons x xs)
      with ab have "cs = xs @ p @ b" by simp
      with Cons.IH have "like_infix cs p" by auto
      then show ?thesis by simp
    qed
  qed
qed

text \<open>
  C7, as amended. A row without a referrer, or with the empty one, counts as \<open>Direct\<close>.
  Any other referrer is classified by the first of \<^verbatim>\<open>google\<close>, \<^verbatim>\<open>facebook\<close>,
  \<^verbatim>\<open>twitter\<close>, \<^verbatim>\<open>linkedin\<close> (in this order, in lower case) that occurs anywhere in the
  whole stored referrer, and as \<open>Other\<close> when none does.
\<close>

theorem traffic_source_first_match_in_referrer:
  "traffic_source None = ''Direct''
   \<and> traffic_source (Some []) = ''Direct''
   \<and> (r \<noteq> [] \<longrightarrow>
        traffic_source (Some r)
          = (if \<exists>a b. r = a @ ''google'' @ b then ''Google''
             else if \<exists>a b. r = a @ ''facebook'' @ b then ''Facebook''
             else if \<exists>a b. r = a @ ''twitter'' @ b then ''Twitter''
             else if \<exists>a b. r = a @ ''linkedin'' @ b then ''LinkedIn''
             else ''Other''))"
  by (simp only: traffic_source_def like_infix_iff option.case simp_thms if_True if_False)
    simp

theorem traffic_source_first_match_in_referrer_witness:
  "traffic_source (Some ''https://www.google.com/search?q=facebook'') = ''Google''
   \<and> traffic_source (Some ''https://t.co/linkedin-twitter'') = ''Twitter''
   \<and> traffic_source (Some ''https://www.Google.com/'') = ''Other''"
proof -
  have n: "''https://www.google.com/search?q=facebook'' \<noteq> []"
    "''https://t.co/linkedin-twitter'' \<noteq> []" "''https://www.Google.com/'' \<noteq> []"
    by simp_all
  have g: "\<exists>a b. ''https://www.google.com/search?q=facebook'' = a @ ''google'' @ b"
    unfolding like_infix_iff [symmetric] by (simp add: startsWith_def)
  have t: "\<not> (\<exists>a b. ''https://t.co/linkedin-twitter'' = a @ ''google'' @ b)"
    "\<not> (\<exists>a b. ''https://t.co/linkedin-twitter'' = a @ ''facebook'' @ b)"
    "\<exists>a b. ''https://t.co/linkedin-twitter'' = a @ ''twitter'' @ b"
    unfolding like_infix_iff [symmetric] by (simp_all add: startsWith_def)
  have o: "\<not> (\<exists>a b. ''https://www.Google.com/'' = a @ ''google'' @ b)"
    "\<not> (\<exists>a b. ''https://www.Google.com/'' = a @ ''facebook'' @ b)"
    "\<not> (\<exists>a b. ''https://www.Google.com/'' = a @ ''twitter'' @ b)"
    "\<not> (\<exists>a b. ''https://www.Google.com/'' = a @ ''linkedin'' @ b)"
    unfolding like_infix_iff [symmetric] by (simp_all add: startsWith_def)
  have 1: "traffic_source (Some ''https://www.google.com/search?q=facebook'') = ''Google''"
    using traffic_source_first_match_in_referrer
      [of "''https://www.google.com/search?q=facebook''", THEN conjunct2, THEN conjunct2,
        rule_format, OF n(1)] g
    by (simp only: if_True)
  have 2: "traffic_source (Some ''https://t.co/linkedin-twitter'') = ''Twitter''"
    using traffic_source_first_match_in_referrer
      [of "''https://t.co/linkedin-twitter''", THEN conjunct2, THEN conjunct2,
        rule_format, OF n(2)] t
    by (simp only: if_True if_False)
  have 3: "traffic_source (Some ''https://www.Google.com/'') = ''Other''"
    using traffic_source_first_match_in_referrer
      [of "''https://www.Google.com/''", THEN conjunct2, THEN conjunct2,
        rule_format, OF n(3)] o
    by (simp only: if_False)
  from 1 2 3 show ?thesis by (intro conjI)
qed

text \<open>
  C7 as stated fails in its last clause, that the match is on the referrer's host: a
  referrer whose host is \<^verbatim>\<open>example.com\<close> and whose query names google is counted as
  \<open>Google\<close>, where a match on the host gives \<open>Other\<close>.
\<close>

theorem traffic_source_not_by_host_counterexample:
  "referrer_host ''https://example.com/search?q=google'' = ''example.com''
   \<and> traffic_source (Some ''https://example.com/search?q=google'') = ''Google''
   \<and> traffic_source_by_host (Some ''https://example.com/search?q=google'') = ''Other''
   \<and> traffic_source (Some ''https://example.com/search?q=google'')
       \<noteq> traffic_source_by_host (Some ''https://example.com/search?q=google'')"
  by (simp add: referrer_host_def traffic_source_def traffic_source_by_host_def startsWith_def)

section \<open>The monitor router: the error percentage\<close>

lemma ilog2_bounds: "0 < n \<Longrightarrow> 2 ^ ilog2 n \<le> n \<and> n < 2 ^ Suc (ilog2 n)"
proof (induction n rule: ilog2.induct)
  case (1 n)
  show ?case
  proof (cases "n < 2")
    case True
    with "1.prems" have "n = 1" by simp
    then show ?thesis by (simp add: ilog2.simps)
  next
    case False
    then have "0 < n div 2" by simp
    with "1.IH" False
    have lo: "2 ^ ilog2 (n div 2) \<le> n div 2" and hi: "n div 2 < 2 ^ Suc (ilog2 (n div 2))"
      by simp_all
    have e: "ilog2 n = Suc (ilog2 (n div 2))"
      using False by (subst ilog2.simps) simp
    from lo have "2 * 2 ^ ilog2 (n div 2) \<le> n" by arith
    moreover from hi have "n < 2 * 2 ^ Suc (ilog2 (n div 2))" by arith
    ultimately show ?thesis by (simp add: e)
  qed
qed

lemma pow2_powi: "pow2 k = 2 powi k"
  by (simp add: pow2_def power_int_def field_simps)

lemma pow2_pos: "0 < pow2 k"
  by (simp add: pow2_def)

lemma pow2_add: "pow2 (a + b) = pow2 a * pow2 b"
  by (simp add: pow2_powi power_int_add)

lemma pow2_nat: "pow2 (int n) = 2 ^ n"
  by (simp add: pow2_def)

lemma pow2_neg_nat: "pow2 (- int n) = 1 / 2 ^ n"
  by (auto simp: pow2_def)

lemma binade_bounds:
  assumes "0 < x"
  shows "pow2 (binade x) \<le> x \<and> x < pow2 (binade x + 1)"
proof (cases "1 \<le> x")
  case True
  define n where "n = nat \<lfloor>x\<rfloor>"
  from True have n: "0 < n" and rn: "real n = of_int \<lfloor>x\<rfloor>" by (simp_all add: n_def)
  from ilog2_bounds [OF n] have lo: "2 ^ ilog2 n \<le> n" and hi: "n < 2 ^ Suc (ilog2 n)"
    by simp_all
  have b: "binade x = int (ilog2 n)" using True by (simp add: binade_def n_def)
  from lo have "(2::real) ^ ilog2 n \<le> real n"
    by (metis of_nat_le_iff of_nat_numeral of_nat_power)
  also have "\<dots> \<le> x" by (simp add: rn)
  finally have 1: "pow2 (binade x) \<le> x" by (simp add: b pow2_nat)
  from hi have "n + 1 \<le> 2 ^ Suc (ilog2 n)" by simp
  then have "real (n + 1) \<le> (2::real) ^ Suc (ilog2 n)"
    by (metis of_nat_le_iff of_nat_numeral of_nat_power)
  moreover have "x < real (n + 1)" using rn by simp linarith
  ultimately have "x < (2::real) ^ Suc (ilog2 n)" by linarith
  moreover have "binade x + 1 = int (Suc (ilog2 n))" by (simp add: b)
  ultimately have 2: "x < pow2 (binade x + 1)" by (simp only: pow2_nat)
  from 1 2 show ?thesis ..
next
  case False
  define y where "y = 1 / x"
  define m where "m = nat (\<lceil>y\<rceil> - 1)"
  from False assms have y1: "1 < y" by (simp add: y_def)
  then have c2: "2 \<le> \<lceil>y\<rceil>" by linarith
  then have m: "0 < m" and rm: "real m = of_int \<lceil>y\<rceil> - 1" by (simp_all add: m_def)
  from ilog2_bounds [OF m] have lo: "2 ^ ilog2 m \<le> m" and hi: "m < 2 ^ Suc (ilog2 m)"
    by simp_all
  have b: "binade x = - int (Suc (ilog2 m))"
    using False by (simp add: binade_def m_def y_def)
  have ym: "real m < y" "y \<le> real m + 1" using rm by linarith+
  from hi have "m + 1 \<le> 2 ^ Suc (ilog2 m)" by simp
  then have "real (m + 1) \<le> (2::real) ^ Suc (ilog2 m)"
    by (metis of_nat_le_iff of_nat_numeral of_nat_power)
  with ym have yu: "y \<le> 2 ^ Suc (ilog2 m)" by simp
  from lo have "(2::real) ^ ilog2 m \<le> real m"
    by (metis of_nat_le_iff of_nat_numeral of_nat_power)
  with ym have yl: "2 ^ ilog2 m < y" by linarith
  have xy: "x = 1 / y" using assms by (simp add: y_def)
  have 1: "pow2 (binade x) \<le> x"
  proof -
    have "pow2 (binade x) = 1 / 2 ^ Suc (ilog2 m)" by (simp only: b pow2_neg_nat)
    also have "\<dots> \<le> 1 / y"
      using yu y1 by (intro divide_left_mono) simp_all
    also have "\<dots> = x" by (simp only: xy)
    finally show ?thesis .
  qed
  have 2: "x < pow2 (binade x + 1)"
  proof -
    have "x = 1 / y" by (rule xy)
    also have "\<dots> < 1 / 2 ^ ilog2 m"
      using yl y1 by (intro divide_strict_left_mono) simp_all
    also have "\<dots> = pow2 (- int (ilog2 m))" by (simp only: pow2_neg_nat)
    also have "- int (ilog2 m) = binade x + 1" by (simp add: b)
    finally show ?thesis .
  qed
  from 1 2 show ?thesis ..
qed

lemma round_half_even_near: "\<bar>of_int (round_half_even y) - y\<bar> \<le> 1 / 2"
proof -
  have "of_int \<lfloor>y\<rfloor> \<le> y" "y < of_int \<lfloor>y\<rfloor> + 1" by linarith+
  then show ?thesis
    by (auto simp: round_half_even_def Let_def)
qed

lemma to_double_error:
  assumes "0 < x"
  shows "\<bar>to_double x - x\<bar> \<le> x / 2 ^ 53"
proof -
  define u where "u = pow2 (binade \<bar>x\<bar> - 52)"
  have up: "0 < u" by (simp add: u_def pow2_pos)
  have t: "to_double x = of_int (round_half_even (x / u)) * u"
    using assms by (simp add: to_double_def u_def Let_def)
  have "to_double x - x = (of_int (round_half_even (x / u)) - x / u) * u"
    using up by (simp add: t field_simps)
  then have "\<bar>to_double x - x\<bar> = \<bar>of_int (round_half_even (x / u)) - x / u\<bar> * u"
    using up by (simp add: abs_mult)
  also have "\<dots> \<le> 1 / 2 * u"
    using round_half_even_near [of "x / u"] up by (intro mult_right_mono) simp_all
  also have "\<dots> = pow2 (binade x) / 2 ^ 53"
  proof -
    have "pow2 (binade x - 52) = pow2 (binade x) * pow2 (- 52)"
      using pow2_add [of "binade x" "- 52"] by simp
    moreover have "pow2 (- 52) = 1 / 2 ^ 52" by (simp add: pow2_def)
    ultimately show ?thesis using assms by (simp add: u_def)
  qed
  also have "\<dots> \<le> x / 2 ^ 53"
    using binade_bounds [OF assms] by (simp add: divide_right_mono)
  finally show ?thesis .
qed

lemma Math_round_near: "real_of_int (Math_round y) \<le> y + 1 / 2 \<and> y - 1 / 2 < real_of_int (Math_round y)"
  unfolding Math_round_def by linarith

lemma percentage_near:
  fixes e t :: nat
  assumes "0 < t" and "e \<le> t" and "t < 2 ^ 44"
  shows "\<bar>real_of_int (Math_round (to_double (to_double (real e / real t) * 100)))
           - 100 * real e / real t\<bar> \<le> 1 / 2"
proof (cases "e = 0")
  case True
  then show ?thesis by (simp add: to_double_def Math_round_def)
next
  case False
  define eps :: real where "eps = 1 / 2 ^ 53"
  define q where "q = real e / real t"
  define y1 where "y1 = to_double q"
  define z where "z = y1 * 100"
  define y2 where "y2 = to_double z"
  define r where "r = Math_round y2"
  define D where "D = 2 * int t * r - 200 * int e"
  have eps: "0 < eps" "eps < 1" "eps < 1 / 100" by (simp_all add: eps_def)
  from False assms have q0: "0 < q" and q1: "q \<le> 1" by (simp_all add: q_def)
  have tq: "real t * q = real e" using assms by (simp add: q_def)
  from to_double_error [OF q0] have e1: "\<bar>y1 - q\<bar> \<le> q * eps" by (simp add: y1_def eps_def)
  have qs: "q * eps \<le> eps" "q * eps < q" using q0 q1 eps by simp_all
  from e1 qs q0 q1 have y1p: "0 < y1" and y1u: "y1 \<le> 1 + eps" by linarith+
  with eps have z0: "0 < z" and zu: "z \<le> 101" unfolding z_def by linarith+
  from to_double_error [OF z0] have e2: "\<bar>y2 - z\<bar> \<le> z * eps" by (simp add: y2_def eps_def)
  from zu eps have zs: "z * eps \<le> 101 * eps" by simp
  have "z - 100 * q = 100 * (y1 - q)" by (simp add: z_def algebra_simps)
  then have zy: "\<bar>z - 100 * q\<bar> = 100 * \<bar>y1 - q\<bar>" by (simp only: abs_mult)
  from e1 qs(1) have "\<bar>y1 - q\<bar> \<le> eps" by (rule order_trans)
  then have zq: "\<bar>z - 100 * q\<bar> \<le> 100 * eps" by (simp only: zy) simp
  from e2 zs zq have yq: "\<bar>y2 - 100 * q\<bar> \<le> 201 * eps" by linarith
  from Math_round_near [of y2]
  have ru: "real_of_int r \<le> y2 + 1 / 2" and rl: "y2 - 1 / 2 < real_of_int r"
    by (simp_all add: r_def)
  from yq ru rl have A: "real_of_int r - 100 * q \<le> 1 / 2 + 201 * eps"
    and B: "- (1 / 2 + 201 * eps) \<le> real_of_int r - 100 * q" by linarith+
  have tr: "real t < 2 ^ 44" using assms(3)
    by (metis of_nat_less_iff of_nat_numeral of_nat_power)
  have small: "2 * real t * (201 * eps) < 1" using tr by (simp add: eps_def)
  have DD: "real_of_int D = 2 * real t * (real_of_int r - 100 * q)"
    using tq by (simp add: D_def algebra_simps)
  have "real_of_int D \<le> 2 * real t * (1 / 2 + 201 * eps)"
    unfolding DD using A assms(1) by (intro mult_left_mono) simp_all
  also have "\<dots> = real t + 2 * real t * (201 * eps)" by (simp add: algebra_simps)
  also have "\<dots> < real t + 1" using small by simp
  finally have "real_of_int D < real_of_int (int t + 1)" by simp
  then have "D < int t + 1" by (simp only: of_int_less_iff)
  then have Du: "D \<le> int t" by simp
  have "- (real t + 2 * real t * (201 * eps)) = 2 * real t * (- (1 / 2 + 201 * eps))"
    by (simp add: algebra_simps)
  also have "\<dots> \<le> real_of_int D"
    unfolding DD using B assms(1) by (intro mult_left_mono) simp_all
  finally have "real_of_int (- int t - 1) < real_of_int D" using small by simp
  then have "- int t - 1 < D" by (simp only: of_int_less_iff)
  then have Dl: "- int t \<le> D" by simp
  from Du Dl have "\<bar>real_of_int D\<bar> \<le> real t" by linarith
  then have "2 * real t * \<bar>real_of_int r - 100 * q\<bar> \<le> 2 * real t * (1 / 2)"
    using assms(1) by (simp add: DD abs_mult)
  then have "\<bar>real_of_int r - 100 * q\<bar> \<le> 1 / 2"
    using assms(1) by (simp only: mult_le_cancel_left_pos)
  then show ?thesis
    by (simp add: r_def y2_def z_def y1_def q_def)
qed

lemma js_gt_decode_zero: "js_gt (decode d n) (JNum 0) = (0 < n)"
  by (simp add: js_gt_def js_lt_def to_number_decode)

lemma errorPercentage_zero: "errorPercentage dr 0 k = JNum 0"
  by (simp add: errorPercentage_def js_gt_decode_zero)

lemma errorPercentage_pos:
  "0 < n \<Longrightarrow>
   errorPercentage dr n k
     = JNum (Math_round (to_double (to_double (real k / real n) * 100)))"
  by (simp add: errorPercentage_def js_gt_decode_zero parseInt_decode)

lemma errorRateResult_rows:
  assumes "(d, n, k) \<in> set (errorRateResult evs did t period)"
  shows "0 < n \<and> k \<le> n \<and> n \<le> length evs"
proof -
  define sel where "sel = domain_events evs did t period"
  from assms have d: "d \<in> set (map day_of sel)"
    and n: "n = length (filter (\<lambda>ev. day_of ev = d) sel)"
    and k: "k = length (filter (\<lambda>ev. day_of ev = d \<and> event_type ev = ''error'') sel)"
    by (auto simp: errorRateResult_def sel_def Let_def)
  from d obtain ev where "ev \<in> set sel" "day_of ev = d" by auto
  then have "filter (\<lambda>ev. day_of ev = d) sel \<noteq> []" by (auto simp: filter_empty_conv)
  then have 1: "0 < n" by (simp add: n)
  have "filter (\<lambda>ev. day_of ev = d \<and> event_type ev = ''error'') sel
          = filter (\<lambda>ev. event_type ev = ''error'') (filter (\<lambda>ev. day_of ev = d) sel)"
    by (simp add: conj_commute)
  then have 2: "k \<le> n" by (simp only: k n length_filter_le)
  have "n \<le> length sel" by (simp add: n)
  also have "\<dots> \<le> length evs" by (simp add: sel_def domain_events_def)
  finally show ?thesis using 1 2 by simp
qed

lemma day_bounds:
  fixes a d :: nat
  shows "a div 86400 = d \<longleftrightarrow> d * 86400 \<le> a \<and> a < (d + 1) * 86400"
proof
  assume "a div 86400 = d"
  then show "d * 86400 \<le> a \<and> a < (d + 1) * 86400"
    using div_times_less_eq_dividend [of a 86400] dividend_less_div_times [of 86400 a]
    by auto
next
  assume "d * 86400 \<le> a \<and> a < (d + 1) * 86400"
  then show "a div 86400 = d"
    by (intro div_nat_eqI) (simp_all add: mult.commute)
qed

lemma remdups_single: "set xs \<subseteq> {x} \<Longrightarrow> xs \<noteq> [] \<Longrightarrow> remdups xs = [x]"
proof (induction xs)
  case Nil
  then show ?case by simp
next
  case (Cons y ys)
  then have y: "y = x" and s: "set ys \<subseteq> {x}" by auto
  show ?case
  proof (cases "ys = []")
    case True
    with y show ?thesis by simp
  next
    case False
    with Cons.IH s have r: "remdups ys = [x]" by simp
    from False s have "x \<in> set ys" by (cases ys) auto
    with y r show ?thesis by simp
  qed
qed

lemma length_filter_replicate: "length (filter P (replicate n x)) = (if P x then n else 0)"
  by (induction n) auto

lemma errorRateResult_days:
  "map fst (errorRateResult evs did t period)
     = sort (remdups (map day_of (domain_events evs did t period)))"
  by (simp add: errorRateResult_def Let_def comp_def)

lemma nearest_or_tie:
  fixes p :: int and x :: real
  assumes "\<bar>real_of_int p - x\<bar> \<le> 1 / 2"
  shows "p = round x \<or> (p = round x - 1 \<and> real_of_int p = x - 1 / 2)"
proof -
  have "real_of_int (round x) \<le> x + 1 / 2" "x + 1 / 2 < real_of_int (round x) + 1"
    unfolding round_def by linarith+
  moreover from assms have "real_of_int p \<le> x + 1 / 2" "x - 1 / 2 \<le> real_of_int p"
    by linarith+
  ultimately have "real_of_int p < real_of_int (round x) + 1"
    "real_of_int (round x) - 1 \<le> real_of_int p"
    "real_of_int p = real_of_int (round x) - 1 \<longrightarrow> real_of_int p = x - 1 / 2"
    by linarith+
  then have "p < round x + 1" "round x - 1 \<le> p" "p = round x - 1 \<longrightarrow> real_of_int p = x - 1 / 2"
    by (simp_all add: of_int_less_iff [where 'a = real, symmetric]
        of_int_le_iff [where 'a = real, symmetric] of_int_eq_iff [where 'a = real, symmetric]
        del: of_int_less_iff of_int_le_iff of_int_eq_iff)
  then show ?thesis by auto
qed

lemma errorPercentage_spec:
  assumes "0 < n" and "k \<le> n" and "n < 2 ^ 44"
  shows "\<exists>p. errorPercentage dr n k = JNum p
     \<and> (p = spec_errorPercentage n k
        \<or> (p = spec_errorPercentage n k - 1
            \<and> real_of_int p = 100 * real k / real n - 1 / 2))"
proof -
  let ?p = "Math_round (to_double (to_double (real k / real n) * 100))"
  from percentage_near [OF assms]
  have "?p = round (100 * real k / real n)
      \<or> (?p = round (100 * real k / real n) - 1 \<and> real_of_int ?p = 100 * real k / real n - 1 / 2)"
    by (rule nearest_or_tie)
  with assms(1) show ?thesis
    by (simp add: errorPercentage_pos spec_errorPercentage_def)
qed

text \<open>
  C6. The error rates of a domain the caller owns have one row for each day on which an
  event of the domain lies in the period, in ascending order of the days; a row carries the
  number of those events of its day, the number of them of type \<^verbatim>\<open>error\<close>, and the
  percentage. The percentage is computed in floating point from the two counts. It is the
  exact quotient, as a percentage, rounded to the nearest integer, unless that quotient
  lies exactly halfway between two integers: there it is one of the two, the upper one
  (the rounded value) or the lower one. For fewer than \<open>2^44\<close> events no other value
  occurs. A row without requests, which the query never returns, would get 0.
\<close>

theorem errorRates_percentage_of_each_day:
  assumes "errorRates e s evs uid did t period = Inr rows" and "length evs < 2 ^ 44"
  shows "\<exists>dom. uuid_in e did = Some dom
      \<and> sorted (map fst rows) \<and> distinct (map fst rows)
      \<and> set (map fst rows) = day_of ` set (domain_events evs dom t period)
      \<and> (\<forall>(d, n, m, pct) \<in> set rows.
            n = length (filter (\<lambda>ev. day_of ev = d) (domain_events evs dom t period))
          \<and> m = length (filter (\<lambda>ev. day_of ev = d \<and> event_type ev = ''error'')
                          (domain_events evs dom t period))
          \<and> 0 < n \<and> m \<le> n
          \<and> pct = errorPercentage (drv e) n m
          \<and> (\<exists>p. pct = JNum p
                \<and> (p = spec_errorPercentage n m
                   \<or> (p = spec_errorPercentage n m - 1
                       \<and> real_of_int p = 100 * real m / real n - 1 / 2))))
      \<and> (\<forall>ev d. day_of ev = d
            \<longleftrightarrow> d * 86400 \<le> a_created_at ev \<and> a_created_at ev < (d + 1) * 86400)
      \<and> (\<forall>ev. ev \<in> set (domain_events evs dom t period)
            \<longleftrightarrow> ev \<in> set evs \<and> a_domain_id ev = Some dom
                \<and> t \<le> a_created_at ev + dateFilter period)
      \<and> errorPercentage (drv e) 0 m' = JNum 0 \<and> spec_errorPercentage 0 m' = 0"
proof -
  from assms(1) obtain dom where u: "uuid_in e did = Some dom"
    and rows: "rows = map (\<lambda>(d, n, m). (d, n, m, errorPercentage (drv e) n m))
                          (errorRateResult evs dom t period)"
    by (auto simp: errorRates_def split: option.splits if_splits)
  have f: "map fst rows = sort (remdups (map day_of (domain_events evs dom t period)))"
    by (simp add: rows errorRateResult_days [symmetric] comp_def case_prod_unfold)
  have 1: "sorted (map fst rows)" "distinct (map fst rows)"
    "set (map fst rows) = day_of ` set (domain_events evs dom t period)"
    by (simp_all add: f)
  have 2: "\<forall>(d, n, m, pct) \<in> set rows.
            n = length (filter (\<lambda>ev. day_of ev = d) (domain_events evs dom t period))
          \<and> m = length (filter (\<lambda>ev. day_of ev = d \<and> event_type ev = ''error'')
                          (domain_events evs dom t period))
          \<and> 0 < n \<and> m \<le> n
          \<and> pct = errorPercentage (drv e) n m
          \<and> (\<exists>p. pct = JNum p
                \<and> (p = spec_errorPercentage n m
                   \<or> (p = spec_errorPercentage n m - 1
                       \<and> real_of_int p = 100 * real m / real n - 1 / 2)))"
  proof (clarify)
    fix d n m pct
    assume "(d, n, m, pct) \<in> set rows"
    then have r: "(d, n, m) \<in> set (errorRateResult evs dom t period)"
      and pct: "pct = errorPercentage (drv e) n m"
      by (auto simp: rows)
    from r have c: "n = length (filter (\<lambda>ev. day_of ev = d) (domain_events evs dom t period))"
      "m = length (filter (\<lambda>ev. day_of ev = d \<and> event_type ev = ''error'')
                          (domain_events evs dom t period))"
      by (auto simp: errorRateResult_def Let_def)
    from errorRateResult_rows [OF r] assms(2) have b: "0 < n" "m \<le> n" "n < 2 ^ 44" by simp_all
    from errorPercentage_spec [OF b, of "drv e"] pct
    have "\<exists>p. pct = JNum p
                \<and> (p = spec_errorPercentage n m
                   \<or> (p = spec_errorPercentage n m - 1
                       \<and> real_of_int p = 100 * real m / real n - 1 / 2))"
      by simp
    with c b pct
    show "n = length (filter (\<lambda>ev. day_of ev = d) (domain_events evs dom t period))
          \<and> m = length (filter (\<lambda>ev. day_of ev = d \<and> event_type ev = ''error'')
                          (domain_events evs dom t period))
          \<and> 0 < n \<and> m \<le> n
          \<and> pct = errorPercentage (drv e) n m
          \<and> (\<exists>p. pct = JNum p
                \<and> (p = spec_errorPercentage n m
                   \<or> (p = spec_errorPercentage n m - 1
                       \<and> real_of_int p = 100 * real m / real n - 1 / 2)))"
      by (intro conjI)
  qed
  have 3: "\<forall>ev d. day_of ev = d
            \<longleftrightarrow> d * 86400 \<le> a_created_at ev \<and> a_created_at ev < (d + 1) * 86400"
  proof (intro allI)
    fix ev :: event and d :: nat
    have "a_created_at ev div 86400 = d
        \<longleftrightarrow> d * 86400 \<le> a_created_at ev \<and> a_created_at ev < (d + 1) * 86400"
      by (rule day_bounds)
    then show "day_of ev = d
        \<longleftrightarrow> d * 86400 \<le> a_created_at ev \<and> a_created_at ev < (d + 1) * 86400"
      by (simp add: day_of_def)
  qed
  have 4: "\<forall>ev. ev \<in> set (domain_events evs dom t period)
            \<longleftrightarrow> ev \<in> set evs \<and> a_domain_id ev = Some dom
                \<and> t \<le> a_created_at ev + dateFilter period"
    by (auto simp: domain_events_def in_period_def)
  have 5: "errorPercentage (drv e) 0 m' = JNum 0" "spec_errorPercentage 0 m' = 0"
    by (simp_all add: errorPercentage_zero spec_errorPercentage_def)
  from u 1 2 3 4 5 show ?thesis by (intro exI [of _ dom] conjI)
qed

lemmas double_defs = to_double_def binade_def pow2_def round_half_even_def Math_round_def
  ilog2.simps Let_def


theorem errorRates_percentage_of_each_day_witness:
  "errorRates example_env store_with_shop week_events ''alice'' shop_id 1000000 ''7d''
     = Inr [(10, 2, 1, JNum 50), (11, 4, 1, JNum 25)]
   \<and> length week_events < 2 ^ 44
   \<and> day_of ` set (domain_events week_events shop_id 1000000 ''7d'') = {10, 11}
   \<and> spec_errorPercentage 2 1 = 50
   \<and> spec_errorPercentage 4 1 = 25
   \<and> errorRates example_env store_with_shop scenario_events ''alice'' shop_id 500 ''24h''
     = Inr [(0, 4, 1, JNum 25)]"
proof -
  have u: "uuid_in example_env shop_id = Some shop_id"
    by (simp add: example_env_def read_canonical_def canonical_uuid_def is_hex_def shop_id_def)
  have o: "filter (\<lambda>d. d_id d = shop_id \<and> d_user_id d = ''alice'') (domains store_with_shop) \<noteq> []"
    by (simp add: store_with_shop_def fresh_store_def shop_def)
  have w: "domain_events week_events shop_id 1000000 ''7d''
     = [logged ''error'' 950500, logged ''page_view'' 864100, logged ''page_view'' 950600,
        logged ''error'' 864200, logged ''page_view'' 950700, logged ''page_view'' 950800]"
    by (simp add: domain_events_def week_events_def scenario_events_def logged_def
        in_period_def dateFilter_def)
  have r: "errorRateResult week_events shop_id 1000000 ''7d'' = [(10, 2, 1), (11, 4, 1)]"
    by (simp add: errorRateResult_def w logged_def day_of_def)
  have p1: "errorPercentage pg_default 4 1 = JNum 25"
    by (simp add: errorPercentage_def parseInt_def js_defs double_defs)
  have p2: "errorPercentage pg_default 2 1 = JNum 50"
    by (simp add: errorPercentage_def parseInt_def js_defs double_defs)
  have d: "drv example_env = pg_default" by (simp add: example_env_def)
  have 1: "errorRates example_env store_with_shop week_events ''alice'' shop_id 1000000 ''7d''
     = Inr [(10, 2, 1, JNum 50), (11, 4, 1, JNum 25)]"
    using u o p1 p2 by (simp add: errorRates_def r d)
  have 2: "length week_events < 2 ^ 44"
    by (simp add: week_events_def scenario_events_def)
  from errorRates_percentage_of_each_day [OF 1 2] u
  have "set (map fst [(10::nat, 2::nat, 1::nat, JNum 50), (11, 4, 1, JNum 25)])
          = day_of ` set (domain_events week_events shop_id 1000000 ''7d'')"
    by auto
  then have 3: "day_of ` set (domain_events week_events shop_id 1000000 ''7d'') = {10, 11}"
    by simp
  have 4: "spec_errorPercentage 2 1 = 50" "spec_errorPercentage 4 1 = 25"
    by (simp_all add: spec_errorPercentage_def round_def)
  have s: "errorRateResult scenario_events shop_id 500 ''24h'' = [(0, 4, 1)]"
    by (simp add: errorRateResult_def domain_events_def in_period_def dateFilter_def day_of_def
        scenario_events_def logged_def)
  have 5: "errorRates example_env store_with_shop scenario_events ''alice'' shop_id 500 ''24h''
     = Inr [(0, 4, 1, JNum 25)]"
    using u o p1 by (simp add: errorRates_def s d)
  from 1 2 3 4 5 show ?thesis by (intro conjI)
qed

text \<open>
  The claim as worded fails at a tie. A day with 40 events, 23 of them errors, has an exact
  percentage of 57.5, which rounds to 58; the floating-point quotient lies just below
  0.575, its product with 100 just below 57.5, and the row says 57.
\<close>

theorem errorPercentage_tie_counterexample:
  "errorRates example_env store_with_shop tie_events ''alice'' shop_id 500 ''24h''
     = Inr [(0, 40, 23, JNum 57)]
   \<and> spec_errorPercentage 40 23 = 58"
proof -
  have u: "uuid_in example_env shop_id = Some shop_id"
    by (simp add: example_env_def read_canonical_def canonical_uuid_def is_hex_def shop_id_def)
  have o: "filter (\<lambda>d. d_id d = shop_id \<and> d_user_id d = ''alice'') (domains store_with_shop) \<noteq> []"
    by (simp add: store_with_shop_def fresh_store_def shop_def)
  have w: "domain_events tie_events shop_id 500 ''24h'' = tie_events"
    by (simp add: domain_events_def tie_events_def logged_def in_period_def dateFilter_def)
  have "set (map day_of tie_events) \<subseteq> {0}" "map day_of tie_events \<noteq> []"
    by (simp_all add: tie_events_def logged_def day_of_def)
  then have days: "remdups (map day_of tie_events) = [0]" by (rule remdups_single)
  have n: "length (filter (\<lambda>ev. day_of ev = 0) tie_events) = 40"
    by (simp add: tie_events_def length_filter_replicate logged_def day_of_def)
  have m: "length (filter (\<lambda>ev. day_of ev = 0 \<and> event_type ev = ''error'') tie_events) = 23"
    by (simp add: tie_events_def length_filter_replicate logged_def day_of_def)
  have r: "errorRateResult tie_events shop_id 500 ''24h'' = [(0, 40, 23)]"
    by (simp add: errorRateResult_def w days n m)
  have p: "errorPercentage pg_default 40 23 = JNum 57"
    by (simp add: errorPercentage_def parseInt_def js_defs double_defs)
  have d: "drv example_env = pg_default" by (simp add: example_env_def)
  have 1: "errorRates example_env store_with_shop tie_events ''alice'' shop_id 500 ''24h''
     = Inr [(0, 40, 23, JNum 57)]"
    using u o p by (simp add: errorRates_def r d)
  have 2: "spec_errorPercentage 40 23 = 58"
    by (simp add: spec_errorPercentage_def round_def)
  from 1 2 show ?thesis by (intro conjI)
qed

end
